theory Spec2Isabelle
  imports Complex_Main "HOL-Library.Word" "HOL-Library.AList"
begin

unbundle bit_operations_syntax

section \<open>Python values\<close>

text \<open>
  A session row, a response and a parsed LLM reply are JSON values as Python holds them:
  \<open>None\<close>, booleans, integers, floats (as the rational they denote), strings, lists and
  dictionaries (association lists; \<open>map_of\<close> is the lookup). A Python \<open>str\<close> is
  represented by its UTF-8 encoding.
\<close>

datatype json =
    JNull
  | JBool bool
  | JInt int
  | JFloat rat
  | JStr string
  | JList "json list"
  | JObj "(string \<times> json) list"

type_synonym pydict = "(string \<times> json) list"

datatype py_error =
    TypeError
  | AttributeError
  | KeyError
  | ValueError
  | ValidationError
  | LLMError

text \<open>
  The parts of the Python runtime that the pipeline calls and that are not written out here:
  \<open>str()\<close> on a value that is not a string (used by the f-strings), and \<open>json.loads\<close> on a
  text whose first significant character is not a double quote (\<open>None\<close> is
  \<open>JSONDecodeError\<close>); and the conversions pydantic tries when a field declared \<open>str\<close>,
  \<open>bool\<close> or \<open>float\<close> is given a value of another JSON type (\<open>None\<close> is a validation
  error).
\<close>

record runtime =
  str_of :: "json \<Rightarrow> string"
  json_document :: "string \<Rightarrow> json option"
  coerce_str :: "json \<Rightarrow> string option"
  coerce_bool :: "json \<Rightarrow> bool option"
  coerce_float :: "json \<Rightarrow> rat option"

definition dq :: char where
  "dq = CHR 0x22"

definition backslash :: char where
  "backslash = CHR 0x5C"

definition nl :: char where
  "nl = CHR 0x0A"

text \<open>\<open>d.get(k, default)\<close> on a dictionary, and on any value (only a dictionary has \<open>get\<close>).\<close>

definition dict_get :: "pydict \<Rightarrow> string \<Rightarrow> json \<Rightarrow> json" where
  "dict_get d k dflt = (case map_of d k of Some v \<Rightarrow> v | None \<Rightarrow> dflt)"

fun py_get :: "json \<Rightarrow> string \<Rightarrow> json \<Rightarrow> py_error + json" where
  "py_get (JObj d) k dflt = Inr (dict_get d k dflt)"
| "py_get _ k dflt = Inl AttributeError"

text \<open>\<open>d[k]\<close> on a dictionary.\<close>

definition dict_item :: "pydict \<Rightarrow> string \<Rightarrow> py_error + json" where
  "dict_item d k = (case map_of d k of Some v \<Rightarrow> Inr v | None \<Rightarrow> Inl KeyError)"

text \<open>
  \<open>for x in v\<close>: a list gives its elements, a dictionary its keys, a string its characters;
  nothing else is iterable.
\<close>

fun py_iter :: "json \<Rightarrow> py_error + json list" where
  "py_iter (JList xs) = Inr xs"
| "py_iter (JObj d) = Inr (map (\<lambda>kv. JStr (fst kv)) d)"
| "py_iter (JStr s) = Inr (map (\<lambda>c. JStr [c]) s)"
| "py_iter _ = Inl TypeError"

text \<open>Truth value of a Python value, as \<open>or\<close>, \<open>not\<close> and \<open>if\<close> test it.\<close>

fun truthy :: "json \<Rightarrow> bool" where
  "truthy JNull = False"
| "truthy (JBool b) = b"
| "truthy (JInt i) = (i \<noteq> 0)"
| "truthy (JFloat r) = (r \<noteq> 0)"
| "truthy (JStr s) = (s \<noteq> [])"
| "truthy (JList xs) = (xs \<noteq> [])"
| "truthy (JObj d) = (d \<noteq> [])"

text \<open>\<open>f"{v}"\<close>: a string is inserted as it is, any other value through \<open>str()\<close>.\<close>

definition py_str :: "runtime \<Rightarrow> json \<Rightarrow> string" where
  "py_str rt v = (case v of JStr s \<Rightarrow> s | _ \<Rightarrow> str_of rt v)"

definition startswith :: "string \<Rightarrow> string \<Rightarrow> bool" where
  "startswith s p = (take (length p) s = p)"

definition endswith :: "string \<Rightarrow> string \<Rightarrow> bool" where
  "endswith s p = (length p \<le> length s \<and> drop (length s - length p) s = p)"

fun join :: "string \<Rightarrow> string list \<Rightarrow> string" where
  "join sep [] = []"
| "join sep [p] = p"
| "join sep (p # q # ps) = p @ sep @ join sep (q # ps)"

section \<open>json.loads on a quoted text\<close>

text \<open>
  \<open>json.loads\<close> skips leading JSON whitespace and dispatches on the next character. On a
  double quote it runs the string scanner (\<open>scanstring\<close>, strict mode): characters are
  copied up to the closing quote, a control character is an error, a backslash starts an
  escape. After the value only JSON whitespace may follow.
\<close>

definition json_ws :: "char \<Rightarrow> bool" where
  "json_ws c = (c \<in> set [CHR 0x20, CHR 0x09, CHR 0x0A, CHR 0x0D])"

definition hex_digit :: "char \<Rightarrow> nat option" where
  "hex_digit c =
     (let n = (of_char c :: nat) in
      if 48 \<le> n \<and> n \<le> 57 then Some (n - 48)
      else if 65 \<le> n \<and> n \<le> 70 then Some (n - 55)
      else if 97 \<le> n \<and> n \<le> 102 then Some (n - 87)
      else None)"

fun decode_uXXXX :: "string \<Rightarrow> nat option" where
  "decode_uXXXX (a # b # c # d # rest) =
     (case hex_digit a of None \<Rightarrow> None | Some w \<Rightarrow>
      (case hex_digit b of None \<Rightarrow> None | Some x \<Rightarrow>
       (case hex_digit c of None \<Rightarrow> None | Some y \<Rightarrow>
        (case hex_digit d of None \<Rightarrow> None | Some z \<Rightarrow>
           Some (((w * 16 + x) * 16 + y) * 16 + z)))))"
| "decode_uXXXX _ = None"

text \<open>\<open>chr(n)\<close> in the UTF-8 representation (a lone surrogate in the three-byte form).\<close>

definition chr_utf8 :: "nat \<Rightarrow> string" where
  "chr_utf8 n =
     (if n < 0x80 then [char_of n]
      else if n < 0x800 then [char_of (0xC0 + n div 64), char_of (0x80 + n mod 64)]
      else if n < 0x10000 then
        [char_of (0xE0 + n div 4096), char_of (0x80 + (n div 64) mod 64),
         char_of (0x80 + n mod 64)]
      else
        [char_of (0xF0 + n div 262144), char_of (0x80 + (n div 4096) mod 64),
         char_of (0x80 + (n div 64) mod 64), char_of (0x80 + n mod 64)])"

text \<open>The table \<open>BACKSLASH\<close> of the decoder.\<close>

definition backslash_char :: "char \<Rightarrow> char option" where
  "backslash_char e =
     (if e = dq then Some dq
      else if e = backslash then Some backslash
      else if e = CHR ''/'' then Some CHR ''/''
      else if e = CHR ''b'' then Some (CHR 0x08)
      else if e = CHR ''f'' then Some (CHR 0x0C)
      else if e = CHR ''n'' then Some (CHR 0x0A)
      else if e = CHR ''r'' then Some (CHR 0x0D)
      else if e = CHR ''t'' then Some (CHR 0x09)
      else None)"

text \<open>
  \<open>scanstring s\<close> is given the text after the opening quote and returns the decoded string
  with the text after the closing quote; \<open>None\<close> is \<open>JSONDecodeError\<close>.
\<close>

fun scanstring :: "string \<Rightarrow> (string \<times> string) option" where
  "scanstring [] = None"
| "scanstring (c # cs) =
     (if c = dq then Some ([], cs)
      else if c = backslash then
        (case cs of
           [] \<Rightarrow> None
         | e # es \<Rightarrow>
             if e \<noteq> CHR ''u'' then
               (case backslash_char e of
                  None \<Rightarrow> None
                | Some ch \<Rightarrow> map_option (\<lambda>dr. (ch # fst dr, snd dr)) (scanstring es))
             else
               (case decode_uXXXX es of
                  None \<Rightarrow> None
                | Some uni \<Rightarrow>
                    if 0xD800 \<le> uni \<and> uni \<le> 0xDBFF \<and> take 2 (drop 4 es) = [backslash, CHR ''u''] then
                      (case decode_uXXXX (drop 6 es) of
                         None \<Rightarrow> None
                       | Some uni2 \<Rightarrow>
                           if 0xDC00 \<le> uni2 \<and> uni2 \<le> 0xDFFF then
                             map_option
                               (\<lambda>dr. (chr_utf8 (0x10000 + (push_bit 10 (uni - 0xD800) OR (uni2 - 0xDC00))) @ fst dr, snd dr))
                               (scanstring (drop 10 es))
                           else map_option (\<lambda>dr. (chr_utf8 uni @ fst dr, snd dr)) (scanstring (drop 4 es)))
                    else map_option (\<lambda>dr. (chr_utf8 uni @ fst dr, snd dr)) (scanstring (drop 4 es))))
      else if (of_char c :: nat) < 0x20 then None
      else map_option (\<lambda>dr. (c # fst dr, snd dr)) (scanstring cs))"

definition json_loads :: "runtime \<Rightarrow> string \<Rightarrow> json option" where
  "json_loads rt s =
     (case dropWhile json_ws s of
        [] \<Rightarrow> None
      | c # cs \<Rightarrow>
          if c = dq then
            (case scanstring cs of
               None \<Rightarrow> None
             | Some dr \<Rightarrow> if dropWhile json_ws (snd dr) = [] then Some (JStr (fst dr)) else None)
          else json_document rt s)"

section \<open>Conversation assembler\<close>

text \<open>\<open>data = session.get("data") or session\<close>.\<close>

definition session_data :: "pydict \<Rightarrow> json" where
  "session_data session =
     (let d = dict_get session ''data'' JNull in if truthy d then d else JObj session)"

definition eligible :: "json \<Rightarrow> bool" where
  "eligible input_type =
     (input_type \<in> set [JStr ''ai_conversation'', JStr ''open_text'', JStr ''voice''])"

text \<open>
  The unwrapping of a double-serialised answer: a string that starts and ends with a double
  quote is given to \<open>json.loads\<close>; a decoding error leaves the answer as it was.
\<close>

definition unwrap_answer :: "runtime \<Rightarrow> json \<Rightarrow> json" where
  "unwrap_answer rt answer =
     (case answer of
        JStr s \<Rightarrow>
          if startswith s [dq] \<and> endswith s [dq] then
            (case json_loads rt s of Some v \<Rightarrow> v | None \<Rightarrow> answer)
          else answer
      | _ \<Rightarrow> answer)"

definition qa_block :: "runtime \<Rightarrow> json \<Rightarrow> json \<Rightarrow> string" where
  "qa_block rt q_text answer = ''Q: '' @ py_str rt q_text @ [nl] @ ''A: '' @ py_str rt answer"

text \<open>The inner loop: two parts for every follow-up.\<close>

fun followup_parts :: "runtime \<Rightarrow> json list \<Rightarrow> py_error + string list" where
  "followup_parts rt [] = Inr []"
| "followup_parts rt (followup # rest) =
     (case py_get followup ''question'' (JStr []) of
        Inl e \<Rightarrow> Inl e
      | Inr q \<Rightarrow>
          (case py_get followup ''answer'' (JStr []) of
             Inl e \<Rightarrow> Inl e
           | Inr a \<Rightarrow>
               (case followup_parts rt rest of
                  Inl e \<Rightarrow> Inl e
                | Inr ps \<Rightarrow>
                    Inr ((''Follow-up Q: '' @ py_str rt q) # (''Follow-up A: '' @ py_str rt a) # ps))))"

text \<open>The body of the outer loop: the parts one response appends.\<close>

definition response_parts :: "runtime \<Rightarrow> json \<Rightarrow> py_error + string list" where
  "response_parts rt resp =
     (case py_get resp ''inputType'' (JStr []) of
        Inl e \<Rightarrow> Inl e
      | Inr input_type \<Rightarrow>
          if \<not> eligible input_type then Inr []
          else
            (case py_get resp ''questionText'' (JStr ''Unknown question'') of
               Inl e \<Rightarrow> Inl e
             | Inr q_text \<Rightarrow>
                 (case py_get resp ''answer'' (JStr []) of
                    Inl e \<Rightarrow> Inl e
                  | Inr answer \<Rightarrow>
                      (case py_get resp ''aiFollowUps'' (JList []) of
                         Inl e \<Rightarrow> Inl e
                       | Inr fu \<Rightarrow>
                           (case py_iter fu of
                              Inl e \<Rightarrow> Inl e
                            | Inr fus \<Rightarrow>
                                (case followup_parts rt fus of
                                   Inl e \<Rightarrow> Inl e
                                 | Inr fps \<Rightarrow>
                                     Inr (qa_block rt q_text (unwrap_answer rt answer) # fps)))))))"

fun conversation_parts :: "runtime \<Rightarrow> json list \<Rightarrow> py_error + string list" where
  "conversation_parts rt [] = Inr []"
| "conversation_parts rt (resp # rest) =
     (case response_parts rt resp of
        Inl e \<Rightarrow> Inl e
      | Inr ps \<Rightarrow>
          (case conversation_parts rt rest of
             Inl e \<Rightarrow> Inl e
           | Inr qs \<Rightarrow> Inr (ps @ qs)))"

definition get_ai_conversation_text :: "runtime \<Rightarrow> pydict \<Rightarrow> py_error + string" where
  "get_ai_conversation_text rt session =
     (case py_get (session_data session) ''responses'' (JList []) of
        Inl e \<Rightarrow> Inl e
      | Inr responses \<Rightarrow>
          (case py_iter responses of
             Inl e \<Rightarrow> Inl e
           | Inr rs \<Rightarrow>
               (case conversation_parts rt rs of
                  Inl e \<Rightarrow> Inl e
                | Inr parts \<Rightarrow> Inr (join [nl, nl] parts))))"
section \<open>str.strip\<close>

text \<open>
  The characters \<open>str.strip()\<close> removes, each in its UTF-8 form: the ASCII ones
  (\<open>\t \n \v \f \r\<close>, \<open>0x1C\<close> to \<open>0x1F\<close>, space), then \<open>U+0085\<close>, \<open>U+00A0\<close>, \<open>U+1680\<close>,
  \<open>U+2000\<close> to \<open>U+200A\<close>, \<open>U+2028\<close>, \<open>U+2029\<close>, \<open>U+202F\<close>, \<open>U+205F\<close> and \<open>U+3000\<close>.
\<close>

definition py_whitespace :: "string list" where
  "py_whitespace =
     [[CHR 0x09], [CHR 0x0A], [CHR 0x0B], [CHR 0x0C], [CHR 0x0D],
      [CHR 0x1C], [CHR 0x1D], [CHR 0x1E], [CHR 0x1F], [CHR 0x20],
      [CHR 0xC2, CHR 0x85], [CHR 0xC2, CHR 0xA0],
      [CHR 0xE1, CHR 0x9A, CHR 0x80],
      [CHR 0xE2, CHR 0x80, CHR 0x80], [CHR 0xE2, CHR 0x80, CHR 0x81],
      [CHR 0xE2, CHR 0x80, CHR 0x82], [CHR 0xE2, CHR 0x80, CHR 0x83],
      [CHR 0xE2, CHR 0x80, CHR 0x84], [CHR 0xE2, CHR 0x80, CHR 0x85],
      [CHR 0xE2, CHR 0x80, CHR 0x86], [CHR 0xE2, CHR 0x80, CHR 0x87],
      [CHR 0xE2, CHR 0x80, CHR 0x88], [CHR 0xE2, CHR 0x80, CHR 0x89],
      [CHR 0xE2, CHR 0x80, CHR 0x8A],
      [CHR 0xE2, CHR 0x80, CHR 0xA8], [CHR 0xE2, CHR 0x80, CHR 0xA9],
      [CHR 0xE2, CHR 0x80, CHR 0xAF],
      [CHR 0xE2, CHR 0x81, CHR 0x9F],
      [CHR 0xE3, CHR 0x80, CHR 0x80]]"

text \<open>Removing from the front every leading occurrence of one of the given characters.\<close>

function lstrip_chars :: "string list \<Rightarrow> string \<Rightarrow> string" where
  "lstrip_chars ws s =
     (case find (\<lambda>w. w \<noteq> [] \<and> startswith s w) ws of
        None \<Rightarrow> s
      | Some w \<Rightarrow> lstrip_chars ws (drop (length w) s))"
  by pat_completeness auto
termination
proof (relation "measure (\<lambda>p. length (snd p))")
  show "wf (measure (\<lambda>p. length (snd p)))"
    by simp
next
  fix ws :: "string list" and s w :: string
  assume "find (\<lambda>w. w \<noteq> [] \<and> startswith s w) ws = Some w"
  then have "w \<noteq> []" and "startswith s w"
    by (auto simp: find_Some_iff)
  then have "s \<noteq> []"
    by (auto simp: startswith_def)
  with \<open>w \<noteq> []\<close> show "((ws, drop (length w) s), (ws, s)) \<in> measure (\<lambda>p. length (snd p))"
    by simp
qed

declare lstrip_chars.simps [simp del]

definition strip :: "string \<Rightarrow> string" where
  "strip s = rev (lstrip_chars (map rev py_whitespace) (rev (lstrip_chars py_whitespace s)))"

section \<open>Extraction schema\<close>

datatype SentimentType = POSITIVE | NEGATIVE | NEUTRAL | MIXED

fun SentimentType_value :: "SentimentType \<Rightarrow> string" where
  "SentimentType_value POSITIVE = ''positive''"
| "SentimentType_value NEGATIVE = ''negative''"
| "SentimentType_value NEUTRAL = ''neutral''"
| "SentimentType_value MIXED = ''mixed''"

datatype ThemeCategory = TOOL | PAIN_POINT | GOAL | CAPABILITY | PROCESS | CULTURE | STRATEGY

fun ThemeCategory_value :: "ThemeCategory \<Rightarrow> string" where
  "ThemeCategory_value TOOL = ''tool''"
| "ThemeCategory_value PAIN_POINT = ''pain_point''"
| "ThemeCategory_value GOAL = ''goal''"
| "ThemeCategory_value CAPABILITY = ''capability''"
| "ThemeCategory_value PROCESS = ''process''"
| "ThemeCategory_value CULTURE = ''culture''"
| "ThemeCategory_value STRATEGY = ''strategy''"

record ExtractedTheme =
  theme_name :: string
  category :: ThemeCategory
  theme_sentiment :: SentimentType
  related_dimensions :: "string list"
  evidence :: string
  confidence :: rat

record ExtractedTool =
  tool_name :: string
  usage_frequency :: "string option"
  sophistication :: "string option"
  use_case :: "string option"

record ExtractedPainPoint =
  pp_description :: string
  severity :: string
  area :: string
  potential_ai_solution :: "string option"

record ExtractedGoal =
  goal_description :: string
  timeframe :: "string option"
  related_to_ai :: bool

record ExtractedQuote =
  quote_text :: string
  quote_context :: string
  quote_sentiment :: SentimentType
  usable_as_testimonial :: bool

text \<open>
  The identity fields of a \<open>SessionExtraction\<close>: the fallback path validates them as
  strings, the primary path assigns them after validation, so \<open>participant_name\<close> and
  \<open>company\<close> hold whatever the participant record holds.
\<close>

record SessionExtraction =
  session_id :: string
  participant_name :: json
  company :: json
  themes :: "ExtractedTheme list"
  tools :: "ExtractedTool list"
  pain_points :: "ExtractedPainPoint list"
  goals :: "ExtractedGoal list"
  quotes :: "ExtractedQuote list"

subsection \<open>Validation of a parsed reply against the schema\<close>

text \<open>
  A value of the declared JSON type is accepted as it is; for any other value the result is
  pydantic's conversion, a parameter of the runtime. \<open>None\<close> is a validation error.
\<close>

definition validate_str :: "runtime \<Rightarrow> json \<Rightarrow> string option" where
  "validate_str rt v = (case v of JStr s \<Rightarrow> Some s | _ \<Rightarrow> coerce_str rt v)"

definition validate_bool :: "runtime \<Rightarrow> json \<Rightarrow> bool option" where
  "validate_bool rt v = (case v of JBool b \<Rightarrow> Some b | _ \<Rightarrow> coerce_bool rt v)"

definition validate_float :: "runtime \<Rightarrow> json \<Rightarrow> rat option" where
  "validate_float rt v =
     (case v of JFloat r \<Rightarrow> Some r | JInt i \<Rightarrow> Some (of_int i) | _ \<Rightarrow> coerce_float rt v)"

text \<open>\<open>Optional[str]\<close>: \<open>None\<close> is a value of the field.\<close>

definition validate_optional_str :: "runtime \<Rightarrow> json \<Rightarrow> string option option" where
  "validate_optional_str rt v =
     (case v of JNull \<Rightarrow> Some None | _ \<Rightarrow> map_option Some (validate_str rt v))"

text \<open>\<open>list[str]\<close>.\<close>

fun validate_all :: "('a \<Rightarrow> 'b option) \<Rightarrow> 'a list \<Rightarrow> 'b list option" where
  "validate_all f [] = Some []"
| "validate_all f (x # xs) =
     (case f x of
        None \<Rightarrow> None
      | Some y \<Rightarrow> (case validate_all f xs of None \<Rightarrow> None | Some ys \<Rightarrow> Some (y # ys)))"

definition validate_str_list :: "runtime \<Rightarrow> json \<Rightarrow> string list option" where
  "validate_str_list rt v =
     (case v of JList xs \<Rightarrow> validate_all (validate_str rt) xs | _ \<Rightarrow> None)"

text \<open>An enumeration is looked up by value.\<close>

definition validate_sentiment :: "json \<Rightarrow> SentimentType option" where
  "validate_sentiment v =
     find (\<lambda>m. JStr (SentimentType_value m) = v) [POSITIVE, NEGATIVE, NEUTRAL, MIXED]"

definition validate_category :: "json \<Rightarrow> ThemeCategory option" where
  "validate_category v =
     find (\<lambda>m. JStr (ThemeCategory_value m) = v)
       [TOOL, PAIN_POINT, GOAL, CAPABILITY, PROCESS, CULTURE, STRATEGY]"

text \<open>A field without a default is required; a field with a default takes it when absent.\<close>

definition required :: "pydict \<Rightarrow> string \<Rightarrow> (json \<Rightarrow> 'a option) \<Rightarrow> 'a option" where
  "required d k validate = (case map_of d k of None \<Rightarrow> None | Some v \<Rightarrow> validate v)"

definition with_default :: "pydict \<Rightarrow> string \<Rightarrow> 'a \<Rightarrow> (json \<Rightarrow> 'a option) \<Rightarrow> 'a option" where
  "with_default d k dflt validate = (case map_of d k of None \<Rightarrow> Some dflt | Some v \<Rightarrow> validate v)"

text \<open>
  The constructors called as \<open>Model(**t)\<close>: \<open>t\<close> must be a dictionary (\<open>TypeError\<close>
  otherwise); unknown keys are ignored.
\<close>

definition ExtractedTheme_init :: "runtime \<Rightarrow> json \<Rightarrow> py_error + ExtractedTheme" where
  "ExtractedTheme_init rt t =
     (case t of
        JObj d \<Rightarrow>
          (case required d ''name'' (validate_str rt) of None \<Rightarrow> Inl ValidationError | Some n \<Rightarrow>
           (case required d ''category'' validate_category of None \<Rightarrow> Inl ValidationError | Some c \<Rightarrow>
            (case required d ''sentiment'' validate_sentiment of None \<Rightarrow> Inl ValidationError | Some s \<Rightarrow>
             (case with_default d ''related_dimensions'' [] (validate_str_list rt) of None \<Rightarrow> Inl ValidationError | Some ds \<Rightarrow>
              (case required d ''evidence'' (validate_str rt) of None \<Rightarrow> Inl ValidationError | Some ev \<Rightarrow>
               (case with_default d ''confidence'' (8 / 10) (validate_float rt) of None \<Rightarrow> Inl ValidationError | Some cf \<Rightarrow>
                  if 0 \<le> cf \<and> cf \<le> 1 then
                    Inr \<lparr>theme_name = n, category = c, theme_sentiment = s,
                         related_dimensions = ds, evidence = ev, confidence = cf\<rparr>
                  else Inl ValidationError))))))
      | _ \<Rightarrow> Inl TypeError)"

definition ExtractedTool_init :: "runtime \<Rightarrow> json \<Rightarrow> py_error + ExtractedTool" where
  "ExtractedTool_init rt t =
     (case t of
        JObj d \<Rightarrow>
          (case required d ''name'' (validate_str rt) of None \<Rightarrow> Inl ValidationError | Some n \<Rightarrow>
           (case with_default d ''usage_frequency'' None (validate_optional_str rt) of None \<Rightarrow> Inl ValidationError | Some f \<Rightarrow>
            (case with_default d ''sophistication'' None (validate_optional_str rt) of None \<Rightarrow> Inl ValidationError | Some s \<Rightarrow>
             (case with_default d ''use_case'' None (validate_optional_str rt) of None \<Rightarrow> Inl ValidationError | Some u \<Rightarrow>
                Inr \<lparr>tool_name = n, usage_frequency = f, sophistication = s, use_case = u\<rparr>))))
      | _ \<Rightarrow> Inl TypeError)"

definition ExtractedPainPoint_init :: "runtime \<Rightarrow> json \<Rightarrow> py_error + ExtractedPainPoint" where
  "ExtractedPainPoint_init rt t =
     (case t of
        JObj d \<Rightarrow>
          (case required d ''description'' (validate_str rt) of None \<Rightarrow> Inl ValidationError | Some ds \<Rightarrow>
           (case required d ''severity'' (validate_str rt) of None \<Rightarrow> Inl ValidationError | Some sv \<Rightarrow>
            (case required d ''area'' (validate_str rt) of None \<Rightarrow> Inl ValidationError | Some ar \<Rightarrow>
             (case with_default d ''potential_ai_solution'' None (validate_optional_str rt) of None \<Rightarrow> Inl ValidationError | Some so \<Rightarrow>
                Inr \<lparr>pp_description = ds, severity = sv, area = ar, potential_ai_solution = so\<rparr>))))
      | _ \<Rightarrow> Inl TypeError)"

definition ExtractedGoal_init :: "runtime \<Rightarrow> json \<Rightarrow> py_error + ExtractedGoal" where
  "ExtractedGoal_init rt t =
     (case t of
        JObj d \<Rightarrow>
          (case required d ''description'' (validate_str rt) of None \<Rightarrow> Inl ValidationError | Some ds \<Rightarrow>
           (case with_default d ''timeframe'' None (validate_optional_str rt) of None \<Rightarrow> Inl ValidationError | Some tf \<Rightarrow>
            (case with_default d ''related_to_ai'' False (validate_bool rt) of None \<Rightarrow> Inl ValidationError | Some ai \<Rightarrow>
               Inr \<lparr>goal_description = ds, timeframe = tf, related_to_ai = ai\<rparr>)))
      | _ \<Rightarrow> Inl TypeError)"

definition ExtractedQuote_init :: "runtime \<Rightarrow> json \<Rightarrow> py_error + ExtractedQuote" where
  "ExtractedQuote_init rt t =
     (case t of
        JObj d \<Rightarrow>
          (case required d ''text'' (validate_str rt) of None \<Rightarrow> Inl ValidationError | Some tx \<Rightarrow>
           (case required d ''context'' (validate_str rt) of None \<Rightarrow> Inl ValidationError | Some cx \<Rightarrow>
            (case required d ''sentiment'' validate_sentiment of None \<Rightarrow> Inl ValidationError | Some s \<Rightarrow>
             (case with_default d ''usable_as_testimonial'' False (validate_bool rt) of None \<Rightarrow> Inl ValidationError | Some u \<Rightarrow>
                Inr \<lparr>quote_text = tx, quote_context = cx, quote_sentiment = s,
                     usable_as_testimonial = u\<rparr>))))
      | _ \<Rightarrow> Inl TypeError)"

section \<open>Intelligence extractor\<close>

text \<open>
  A row of \<open>cascade_sessions\<close>: its \<open>id\<close>, a string, and its other columns. As a dictionary
  the row has the key \<open>id\<close> first.
\<close>

record session_row =
  row_id :: string
  columns :: pydict

definition session_dict :: "session_row \<Rightarrow> pydict" where
  "session_dict session = (''id'', JStr (row_id session)) # columns session"

text \<open>
  The services outside the program. \<open>extractor_extract\<close> is
  \<open>Extractor(...).extract(text, instruction, response_model=SessionExtraction)\<close>: it raises,
  returns nothing, or returns an extraction. \<open>generate_content\<close> is
  \<open>model.generate_content(prompt).text\<close>. The installed flags say whether the imports
  succeed. \<open>genai.configure\<close> and the \<open>GenerativeModel\<close> constructor only record their
  arguments.
\<close>

record env =
  langextract_installed :: bool
  extractor_extract :: "string \<Rightarrow> string \<Rightarrow> py_error + SessionExtraction option"
  genai_installed :: bool
  GEMINI_API_KEY :: string
  generate_content :: "string \<Rightarrow> py_error + string"

text \<open>The instruction of the primary path, an f-string: every \<open>participant.get\<close> needs a dictionary.\<close>

definition extraction_prompt :: "runtime \<Rightarrow> json \<Rightarrow> string \<Rightarrow> py_error + string" where
  \<open>extraction_prompt rt participant conversation_text =
     (case py_get participant ''name'' (JStr ''a participant'') of
        Inl e \<Rightarrow> Inl e
      | Inr v1 \<Rightarrow>
         (case py_get participant ''company'' (JStr ''unknown company'') of
            Inl e \<Rightarrow> Inl e
          | Inr v2 \<Rightarrow>
             (case py_get participant ''industry'' (JStr ''unknown industry'') of
                Inl e \<Rightarrow> Inl e
              | Inr v3 \<Rightarrow>
                 (case py_get participant ''role'' (JStr ''unknown'') of
                    Inl e \<Rightarrow> Inl e
                  | Inr v4 \<Rightarrow>
                     Inr (
                       ''\<newline>'' @
                       ''You are analyzing an AI readiness assessment conversation with '' @
                       py_str rt v1 @
                       ''\<newline>'' @
                       ''from '' @
                       py_str rt v2 @
                       '' ('' @
                       py_str rt v3 @
                       '').\<newline>'' @
                       ''Their role is: '' @
                       py_str rt v4 @
                       ''.\<newline>'' @
                       ''\<newline>'' @
                       ''Extract ALL of the following from their responses:\<newline>'' @
                       ''\<newline>'' @
                       ''1. THEMES: Key topics, patterns, and recurring ideas. Categorize as: tool, pain_point, goal, capability, process, culture, strategy.\<newline>'' @
                       ''   Include sentiment (positive/negative/neutral/mixed) and which scoring dimensions relate.\<newline>'' @
                       ''   Dimensions: ai_awareness, ai_action, process_readiness, strategic_clarity, change_energy, team_capacity, mission_alignment, investment_readiness\<newline>'' @
                       ''\<newline>'' @
                       ''2. TOOLS: Specific AI tools, software, or platforms mentioned. Note usage frequency and sophistication.\<newline>'' @
                       ''\<newline>'' @
                       ''3. PAIN POINTS: Business challenges, bottlenecks, frustrations. Rate severity: critical/high/medium/low.\<newline>'' @
                       ''\<newline>'' @
                       ''4. GOALS: Transformation goals or desired outcomes. Note if AI-related and timeframe.\<newline>'' @
                       ''\<newline>'' @
                       ''5. QUOTES: Standout direct quotes worth surfacing in reports. Flag if usable as testimonial.\<newline>'' @
                       ''\<newline>'' @
                       ''Return structured JSON matching these exact schemas.\<newline>'' @
                       ''\<newline>'' @
                       ''=== CONVERSATION TEXT ===\<newline>'' @
                       conversation_text @
                       ''\<newline>''
                     )))))\<close>

text \<open>The prompt of the fallback path, an f-string: every \<open>participant.get\<close> needs a dictionary.\<close>

definition gemini_prompt :: "runtime \<Rightarrow> json \<Rightarrow> string \<Rightarrow> py_error + string" where
  \<open>gemini_prompt rt participant conversation_text =
     (case py_get participant ''name'' (JStr ''Unknown'') of
        Inl e \<Rightarrow> Inl e
      | Inr v1 \<Rightarrow>
         (case py_get participant ''company'' (JStr ''Unknown'') of
            Inl e \<Rightarrow> Inl e
          | Inr v2 \<Rightarrow>
             (case py_get participant ''role'' (JStr ''Unknown'') of
                Inl e \<Rightarrow> Inl e
              | Inr v3 \<Rightarrow>
                 Inr (
                   ''Analyze this AI readiness assessment conversation and extract structured intelligence.\<newline>'' @
                   ''\<newline>'' @
                   ''Participant: '' @
                   py_str rt v1 @
                   '' | Company: '' @
                   py_str rt v2 @
                   '' | Role: '' @
                   py_str rt v3 @
                   ''\<newline>'' @
                   ''\<newline>'' @
                   ''Return ONLY valid JSON (no markdown, no code fences) with this structure:\<newline>'' @
                   ''{\<newline>'' @
                   ''  "themes": [{"name": "...", "category": "tool|pain_point|goal|capability|process|culture|strategy", "sentiment": "positive|negative|neutral|mixed", "related_dimensions": ["ai_action", ...], "evidence": "...", "confidence": 0.8}],\<newline>'' @
                   ''  "tools": [{"name": "...", "usage_frequency": "daily|weekly|occasionally|tried_once|never", "sophistication": "basic|intermediate|advanced", "use_case": "..."}],\<newline>'' @
                   ''  "pain_points": [{"description": "...", "severity": "critical|high|medium|low", "area": "operations|hiring|sales|marketing|product|leadership|culture", "potential_ai_solution": "..."}],\<newline>'' @
                   ''  "goals": [{"description": "...", "timeframe": "immediate|near_term|long_term", "related_to_ai": true}],\<newline>'' @
                   ''  "quotes": [{"text": "...", "context": "...", "sentiment": "positive|negative|neutral|mixed", "usable_as_testimonial": false}]\<newline>'' @
                   ''}\<newline>'' @
                   ''\<newline>'' @
                   ''=== CONVERSATION ===\<newline>'' @
                   conversation_text @
                   ''\<newline>''
                 ))))\<close>

subsection \<open>Fallback path\<close>

definition fence :: string where
  "fence = [CHR 0x60, CHR 0x60, CHR 0x60]"

text \<open>The reply without its code fences and language tag, as handed to \<open>json.loads\<close>.\<close>

definition strip_fences :: "string \<Rightarrow> string" where
  "strip_fences reply =
     (let text = strip reply;
          text = (if startswith text fence then
                    (if nl \<in> set text then drop 1 (dropWhile (\<lambda>c. c \<noteq> nl) text)
                     else drop 3 text)
                  else text);
          text = (if endswith text fence then take (length text - 3) text else text);
          text = (if startswith text ''json'' then drop 4 text else text)
      in strip text)"

text \<open>A list comprehension \<open>[Model(**t) for t in parsed.get(key, [])]\<close>.\<close>

fun init_all :: "(json \<Rightarrow> py_error + 'a) \<Rightarrow> json list \<Rightarrow> py_error + 'a list" where
  "init_all init [] = Inr []"
| "init_all init (t # ts) =
     (case init t of
        Inl e \<Rightarrow> Inl e
      | Inr x \<Rightarrow> (case init_all init ts of Inl e \<Rightarrow> Inl e | Inr xs \<Rightarrow> Inr (x # xs)))"

definition entities :: "(json \<Rightarrow> py_error + 'a) \<Rightarrow> json \<Rightarrow> string \<Rightarrow> py_error + 'a list" where
  "entities init parsed key =
     (case py_get parsed key (JList []) of
        Inl e \<Rightarrow> Inl e
      | Inr v \<Rightarrow> (case py_iter v of Inl e \<Rightarrow> Inl e | Inr ts \<Rightarrow> init_all init ts))"

text \<open>
  The body of the \<open>try\<close> after the reply has arrived: parse it and build the
  \<open>SessionExtraction\<close>, whose identity fields are validated as strings.
\<close>

definition build_extraction ::
  "runtime \<Rightarrow> session_row \<Rightarrow> json \<Rightarrow> string \<Rightarrow> py_error + SessionExtraction" where
  "build_extraction rt session participant reply =
     (case json_loads rt (strip_fences reply) of
        None \<Rightarrow> Inl ValueError
      | Some parsed \<Rightarrow>
          (case py_get participant ''name'' (JStr ''Unknown'') of Inl e \<Rightarrow> Inl e | Inr pname \<Rightarrow>
           (case py_get participant ''company'' (JStr ''Unknown'') of Inl e \<Rightarrow> Inl e | Inr pcompany \<Rightarrow>
            (case entities (ExtractedTheme_init rt) parsed ''themes'' of Inl e \<Rightarrow> Inl e | Inr ths \<Rightarrow>
             (case entities (ExtractedTool_init rt) parsed ''tools'' of Inl e \<Rightarrow> Inl e | Inr tls \<Rightarrow>
              (case entities (ExtractedPainPoint_init rt) parsed ''pain_points'' of Inl e \<Rightarrow> Inl e | Inr pps \<Rightarrow>
               (case entities (ExtractedGoal_init rt) parsed ''goals'' of Inl e \<Rightarrow> Inl e | Inr gls \<Rightarrow>
                (case entities (ExtractedQuote_init rt) parsed ''quotes'' of Inl e \<Rightarrow> Inl e | Inr qts \<Rightarrow>
                 (case validate_str rt pname of None \<Rightarrow> Inl ValidationError | Some n \<Rightarrow>
                  (case validate_str rt pcompany of None \<Rightarrow> Inl ValidationError | Some c \<Rightarrow>
                     Inr \<lparr>session_id = row_id session, participant_name = JStr n, company = JStr c,
                          themes = ths, tools = tls, pain_points = pps, goals = gls,
                          quotes = qts\<rparr>))))))))))"

text \<open>
  Both extractors return their result together with the number of LLM calls they made.
  \<open>Inl\<close> is an exception that leaves the function, \<open>Inr None\<close> is "no result".
\<close>

definition extract_with_gemini_direct ::
  "runtime \<Rightarrow> env \<Rightarrow> session_row \<Rightarrow> (py_error + SessionExtraction option) \<times> nat" where
  "extract_with_gemini_direct rt ev session =
     (if \<not> genai_installed ev then (Inr None, 0)
      else if GEMINI_API_KEY ev = [] then (Inr None, 0)
      else
        (case py_get (session_data (session_dict session)) ''participant'' (JObj []) of
           Inl e \<Rightarrow> (Inl e, 0)
         | Inr participant \<Rightarrow>
             (case get_ai_conversation_text rt (session_dict session) of
                Inl e \<Rightarrow> (Inl e, 0)
              | Inr conversation_text \<Rightarrow>
                  if strip conversation_text = [] then (Inr None, 0)
                  else
                    (case gemini_prompt rt participant conversation_text of
                       Inl e \<Rightarrow> (Inl e, 0)
                     | Inr prompt \<Rightarrow>
                         (case generate_content ev prompt of
                            Inl e \<Rightarrow> (Inr None, 1)
                          | Inr reply \<Rightarrow>
                              (case build_extraction rt session participant reply of
                                 Inl e \<Rightarrow> (Inr None, 1)
                               | Inr extraction \<Rightarrow> (Inr (Some extraction), 1)))))))"

definition extract_intelligence ::
  "runtime \<Rightarrow> env \<Rightarrow> session_row \<Rightarrow> (py_error + SessionExtraction option) \<times> nat" where
  "extract_intelligence rt ev session =
     (if \<not> langextract_installed ev then extract_with_gemini_direct rt ev session
      else
        (case py_get (session_data (session_dict session)) ''participant'' (JObj []) of
           Inl e \<Rightarrow> (Inl e, 0)
         | Inr participant \<Rightarrow>
             (case get_ai_conversation_text rt (session_dict session) of
                Inl e \<Rightarrow> (Inl e, 0)
              | Inr conversation_text \<Rightarrow>
                  if strip conversation_text = [] then (Inr None, 0)
                  else
                    (case extraction_prompt rt participant conversation_text of
                       Inl e \<Rightarrow> (Inl e, 0)
                     | Inr instruction \<Rightarrow>
                         (case extractor_extract ev conversation_text instruction of
                            Inl e \<Rightarrow>
                              (let r = extract_with_gemini_direct rt ev session
                               in (fst r, Suc (snd r)))
                          | Inr None \<Rightarrow> (Inr None, 1)
                          | Inr (Some result) \<Rightarrow>
                              (case py_get participant ''name'' (JStr ''Unknown'') of
                                 Inl e \<Rightarrow>
                                   (let r = extract_with_gemini_direct rt ev session
                                    in (fst r, Suc (snd r)))
                               | Inr pname \<Rightarrow>
                                   (case py_get participant ''company'' (JStr ''Unknown'') of
                                      Inl e \<Rightarrow>
                                        (let r = extract_with_gemini_direct rt ev session
                                         in (fst r, Suc (snd r)))
                                    | Inr pcompany \<Rightarrow>
                                        (Inr (Some (result\<lparr>session_id := row_id session,
                                                            participant_name := pname,
                                                            company := pcompany\<rparr>)), 1))))))))"

section \<open>Auxiliary notions for the statements\<close>

text \<open>A runtime for the concrete examples: no conversion is attempted by it.\<close>

definition example_runtime :: runtime where
  "example_runtime =
     \<lparr>str_of = (\<lambda>v. ''?''), json_document = (\<lambda>s. None), coerce_str = (\<lambda>v. None),
      coerce_bool = (\<lambda>v. None), coerce_float = (\<lambda>v. None)\<rparr>"

text \<open>A character that the string scanner copies: no quote, no backslash, no control.\<close>

definition plain_char :: "char \<Rightarrow> bool" where
  "plain_char c = (c \<noteq> dq \<and> c \<noteq> backslash \<and> \<not> (of_char c :: nat) < 0x20)"

definition is_dict :: "json \<Rightarrow> bool" where
  "is_dict v = (case v of JObj d \<Rightarrow> True | _ \<Rightarrow> False)"

definition the_dict :: "json \<Rightarrow> pydict" where
  "the_dict v = (case v of JObj d \<Rightarrow> d | _ \<Rightarrow> [])"

text \<open>The two blocks of a follow-up entry, and the follow-up list of a response.\<close>

definition followup_blocks :: "runtime \<Rightarrow> json \<Rightarrow> string list" where
  "followup_blocks rt f =
     [''Follow-up Q: '' @ py_str rt (dict_get (the_dict f) ''question'' (JStr [])),
      ''Follow-up A: '' @ py_str rt (dict_get (the_dict f) ''answer'' (JStr []))]"

definition followups :: "pydict \<Rightarrow> json list" where
  "followups d = (case dict_get d ''aiFollowUps'' (JList []) of JList fs \<Rightarrow> fs | _ \<Rightarrow> [])"

text \<open>
  A response the assembler can walk: a dictionary whose follow-ups, when the response is
  eligible, are a list of dictionaries (an absent list counts as empty).
\<close>

definition well_formed_response :: "json \<Rightarrow> bool" where
  "well_formed_response r =
     (case r of
        JObj d \<Rightarrow>
          if eligible (dict_get d ''inputType'' (JStr [])) then
            (case dict_get d ''aiFollowUps'' (JList []) of
               JList fs \<Rightarrow> list_all is_dict fs
             | _ \<Rightarrow> False)
          else True
      | _ \<Rightarrow> False)"

text \<open>The blocks of one response: none when it is not eligible.\<close>

definition response_blocks :: "runtime \<Rightarrow> json \<Rightarrow> string list" where
  "response_blocks rt r =
     (let d = the_dict r in
      if eligible (dict_get d ''inputType'' (JStr [])) then
        qa_block rt (dict_get d ''questionText'' (JStr ''Unknown question''))
          (unwrap_answer rt (dict_get d ''answer'' (JStr [])))
        # concat (map (followup_blocks rt) (followups d))
      else [])"

text \<open>
  The transcript as the specification words it: after the block of a response, one further
  block \<open>Q: ... A: ...\<close> for each follow-up entry.
\<close>

definition spec_response_blocks :: "runtime \<Rightarrow> json \<Rightarrow> string list" where
  "spec_response_blocks rt r =
     (let d = the_dict r in
      if eligible (dict_get d ''inputType'' (JStr [])) then
        qa_block rt (dict_get d ''questionText'' (JStr ''Unknown question''))
          (unwrap_answer rt (dict_get d ''answer'' (JStr [])))
        # map (\<lambda>f. qa_block rt (dict_get (the_dict f) ''question'' (JStr []))
                       (dict_get (the_dict f) ''answer'' (JStr [])))
            (followups d)
      else [])"

definition spec_transcript :: "runtime \<Rightarrow> json list \<Rightarrow> string" where
  "spec_transcript rt rs = join [nl, nl] (concat (map (spec_response_blocks rt) rs))"

text \<open>Example sessions.\<close>

definition followup_responses :: "json list" where
  "followup_responses =
     [JObj [(''inputType'', JStr ''open_text''), (''questionText'', JStr ''q1''),
            (''answer'', JStr ''a1''),
            (''aiFollowUps'', JList [JObj [(''question'', JStr ''fq''), (''answer'', JStr ''fa'')]])]]"

definition followup_session :: pydict where
  "followup_session = [(''id'', JStr ''s1''), (''responses'', JList followup_responses)]"

definition hello_session :: pydict where
  "hello_session =
     [(''id'', JStr ''s1''),
      (''responses'', JList
         [JObj [(''inputType'', JStr ''open_text''), (''questionText'', JStr ''q1''),
                (''answer'', JStr (dq # ''hello'' @ [dq]))]])]"

section \<open>Graph store\<close>

text \<open>
  The property graph: a node has labels and properties, a relationship has a type, its end
  nodes and properties. Nodes are never deleted by the pipeline, so a node is identified by
  its position in the node list. \<open>clock\<close> is what \<open>datetime()\<close> returns; it advances with
  every statement.
\<close>

datatype pval = PStr string | PBool bool | PFloat rat | PTime nat

type_synonym props = "(string \<times> pval) list"

record node =
  labels :: "string list"
  node_props :: props

record rel =
  rel_src :: nat
  rel_type :: string
  rel_dst :: nat
  rel_props :: props

record graph =
  nodes :: "node list"
  rels :: "rel list"
  clock :: nat

text \<open>\<open>SET x.k = v, ...\<close>: a property that exists is replaced, a new one is added.\<close>

definition set_props :: "props \<Rightarrow> props \<Rightarrow> props" where
  "set_props kvs ps = fold (\<lambda>kv. AList.update (fst kv) (snd kv)) kvs ps"

text \<open>The pattern \<open>(x:L {k: v})\<close>, and the nodes of the graph that match it.\<close>

definition node_matches :: "node \<Rightarrow> string \<Rightarrow> string \<Rightarrow> pval \<Rightarrow> bool" where
  "node_matches n L k v = (L \<in> set (labels n) \<and> map_of (node_props n) k = Some v)"

definition match_nodes :: "graph \<Rightarrow> string \<Rightarrow> string \<Rightarrow> pval \<Rightarrow> nat list" where
  "match_nodes g L k v = filter (\<lambda>i. node_matches (nodes g ! i) L k v) [0..<length (nodes g)]"

text \<open>\<open>MERGE (x:L {k: v})\<close>: a node is created when none matches.\<close>

definition merge_node :: "string \<Rightarrow> string \<Rightarrow> pval \<Rightarrow> graph \<Rightarrow> graph" where
  "merge_node L k v g =
     (if match_nodes g L k v = [] then
        g\<lparr>nodes := nodes g @ [\<lparr>labels = [L], node_props = [(k, v)]\<rparr>]\<rparr>
      else g)"

text \<open>\<open>SET\<close> on the nodes bound to a variable.\<close>

definition set_nodes :: "nat list \<Rightarrow> props \<Rightarrow> graph \<Rightarrow> graph" where
  "set_nodes xs kvs g =
     g\<lparr>nodes := map (\<lambda>i. if i \<in> set xs
                            then (nodes g ! i)\<lparr>node_props := set_props kvs (node_props (nodes g ! i))\<rparr>
                            else nodes g ! i)
                  [0..<length (nodes g)]\<rparr>"

text \<open>
  The pattern \<open>(s)-[r:T]->(t)\<close> with \<open>s\<close> and \<open>t\<close> bound. \<open>MERGE\<close> over the rows \<open>ts \<times> ss\<close>:
  a relationship is created for every row that has none; then \<open>r\<close> ranges over all
  relationships of the type between the bound nodes, and \<open>SET\<close> writes to each.
\<close>

definition rel_matches :: "rel \<Rightarrow> nat list \<Rightarrow> string \<Rightarrow> nat list \<Rightarrow> bool" where
  "rel_matches r ss T ts = (rel_type r = T \<and> rel_src r \<in> set ss \<and> rel_dst r \<in> set ts)"

definition merge_rels :: "nat list \<Rightarrow> string \<Rightarrow> nat list \<Rightarrow> graph \<Rightarrow> graph" where
  "merge_rels ss T ts g =
     g\<lparr>rels := rels g @
         concat (map (\<lambda>t. concat (map (\<lambda>s.
           if list_ex (\<lambda>r. rel_matches r [s] T [t]) (rels g) then []
           else [\<lparr>rel_src = s, rel_type = T, rel_dst = t, rel_props = []\<rparr>]) ss)) ts)\<rparr>"

definition set_rels :: "nat list \<Rightarrow> string \<Rightarrow> nat list \<Rightarrow> props \<Rightarrow> graph \<Rightarrow> graph" where
  "set_rels ss T ts kvs g =
     g\<lparr>rels := map (\<lambda>r. if rel_matches r ss T ts
                           then r\<lparr>rel_props := set_props kvs (rel_props r)\<rparr> else r)
                 (rels g)\<rparr>"

definition tick :: "graph \<Rightarrow> graph" where
  "tick g = g\<lparr>clock := Suc (clock g)\<rparr>"

text \<open>
  The statement shared by themes, tools, pain points and goals:
  \<^verbatim>\<open>MERGE (x:L {k: $v}) SET x... WITH x MATCH (s:Session {id: $sessionId})
  MERGE (s)-[r:T]->(x) SET r...\<close>
\<close>

definition upsert ::
  "string \<Rightarrow> string \<Rightarrow> string \<Rightarrow> props \<Rightarrow> string \<Rightarrow> string \<Rightarrow> props \<Rightarrow> graph \<Rightarrow> graph" where
  "upsert L k v node_sets sid T rel_sets g =
     (let g1 = merge_node L k (PStr v) g;
          xs = match_nodes g1 L k (PStr v);
          g2 = set_nodes xs node_sets g1;
          ss = match_nodes g2 ''Session'' ''id'' (PStr sid);
          g3 = merge_rels ss T xs g2;
          g4 = set_rels ss T xs rel_sets g3
      in tick g4)"

section \<open>Graph synchronizer\<close>

text \<open>\<open>x or default\<close> on an optional string: \<open>None\<close> and the empty string are false.\<close>

definition or_default :: "string option \<Rightarrow> string \<Rightarrow> string" where
  "or_default x dflt = (case x of None \<Rightarrow> dflt | Some s \<Rightarrow> if s = [] then dflt else s)"

definition sync_theme :: "string \<Rightarrow> ExtractedTheme \<Rightarrow> graph \<Rightarrow> graph" where
  "sync_theme sid theme g =
     upsert ''Theme'' ''name'' (theme_name theme)
       [(''category'', PStr (ThemeCategory_value (category theme))),
        (''updatedAt'', PTime (clock g))]
       sid ''SURFACED''
       [(''sentiment'', PStr (SentimentType_value (theme_sentiment theme))),
        (''confidence'', PFloat (confidence theme)),
        (''evidence'', PStr (evidence theme))]
       g"

text \<open>
  \<^verbatim>\<open>MERGE (t:Theme {name: $theme}) MERGE (d:ScoringDimension {name: $dim})
  MERGE (t)-[:RELATES_TO]->(d)\<close>
\<close>

definition link_dimension :: "string \<Rightarrow> string \<Rightarrow> graph \<Rightarrow> graph" where
  "link_dimension theme dimension g =
     (let g1 = merge_node ''Theme'' ''name'' (PStr theme) g;
          ts = match_nodes g1 ''Theme'' ''name'' (PStr theme);
          g2 = merge_node ''ScoringDimension'' ''name'' (PStr dimension) g1;
          ds = match_nodes g2 ''ScoringDimension'' ''name'' (PStr dimension);
          g3 = merge_rels ts ''RELATES_TO'' ds g2
      in tick g3)"

definition sync_tool :: "string \<Rightarrow> ExtractedTool \<Rightarrow> graph \<Rightarrow> graph" where
  "sync_tool sid tool g =
     upsert ''Tool'' ''name'' (tool_name tool)
       [(''updatedAt'', PTime (clock g))]
       sid ''USES_TOOL''
       [(''frequency'', PStr (or_default (usage_frequency tool) ''unknown'')),
        (''sophistication'', PStr (or_default (sophistication tool) ''unknown'')),
        (''useCase'', PStr (or_default (use_case tool) []))]
       g"

definition sync_pain_point :: "string \<Rightarrow> ExtractedPainPoint \<Rightarrow> graph \<Rightarrow> graph" where
  "sync_pain_point sid pp g =
     upsert ''PainPoint'' ''description'' (pp_description pp)
       [(''severity'', PStr (severity pp)), (''area'', PStr (area pp)),
        (''updatedAt'', PTime (clock g))]
       sid ''HAS_PAIN_POINT''
       [(''potentialAiSolution'', PStr (or_default (potential_ai_solution pp) []))]
       g"

definition sync_goal :: "string \<Rightarrow> ExtractedGoal \<Rightarrow> graph \<Rightarrow> graph" where
  "sync_goal sid goal g =
     upsert ''Goal'' ''description'' (goal_description goal)
       [(''timeframe'', PStr (or_default (timeframe goal) ''unspecified'')),
        (''relatedToAi'', PBool (related_to_ai goal)),
        (''updatedAt'', PTime (clock g))]
       sid ''HAS_GOAL'' [] g"

text \<open>
  \<^verbatim>\<open>MATCH (s:Session {id: $sessionId}) CREATE (q:Quote {...}) CREATE (s)-[:QUOTED]->(q)\<close>:
  one new node and one new relationship for every matching session node.
\<close>

definition create_quote :: "ExtractedQuote \<Rightarrow> nat \<Rightarrow> nat \<Rightarrow> graph \<Rightarrow> graph" where
  "create_quote quote now s g =
     g\<lparr>nodes := nodes g @
          [\<lparr>labels = [''Quote''],
            node_props =
              [(''text'', PStr (quote_text quote)), (''context'', PStr (quote_context quote)),
               (''sentiment'', PStr (SentimentType_value (quote_sentiment quote))),
               (''testimonial'', PBool (usable_as_testimonial quote)),
               (''createdAt'', PTime now)]\<rparr>],
       rels := rels g @
          [\<lparr>rel_src = s, rel_type = ''QUOTED'', rel_dst = length (nodes g), rel_props = []\<rparr>]\<rparr>"

definition sync_quote :: "string \<Rightarrow> ExtractedQuote \<Rightarrow> graph \<Rightarrow> graph" where
  "sync_quote sid quote g =
     tick (fold (create_quote quote (clock g)) (match_nodes g ''Session'' ''id'' (PStr sid)) g)"

definition sync_theme_with_dimensions :: "string \<Rightarrow> ExtractedTheme \<Rightarrow> graph \<Rightarrow> graph" where
  "sync_theme_with_dimensions sid theme g =
     fold (link_dimension (theme_name theme)) (related_dimensions theme) (sync_theme sid theme g)"

definition sync_extraction_to_graph :: "SessionExtraction \<Rightarrow> graph \<Rightarrow> graph" where
  "sync_extraction_to_graph extraction g =
     (let sid = session_id extraction;
          g1 = fold (sync_theme_with_dimensions sid) (themes extraction) g;
          g2 = fold (sync_tool sid) (tools extraction) g1;
          g3 = fold (sync_pain_point sid) (pain_points extraction) g2;
          g4 = fold (sync_goal sid) (goals extraction) g3
      in fold (sync_quote sid) (quotes extraction) g4)"

section \<open>Pipeline orchestrator\<close>

text \<open>
  The source table and the command line. \<open>fetch_analyzed_sessions\<close> selects by id when an
  id is given (an empty id counts as none), else by the status \<open>analyzed\<close>.
\<close>

record args =
  arg_reprocess :: bool
  arg_session :: "string option"

definition given :: "string option \<Rightarrow> bool" where
  "given x = (case x of None \<Rightarrow> False | Some s \<Rightarrow> s \<noteq> [])"

definition fetch_analyzed_sessions :: "session_row list \<Rightarrow> string option \<Rightarrow> session_row list" where
  "fetch_analyzed_sessions table sid =
     (if given sid then filter (\<lambda>row. Some (row_id row) = sid) table
      else filter (\<lambda>row. dict_get (session_dict row) ''status'' JNull = JStr ''analyzed'') table)"

text \<open>
  \<^verbatim>\<open>MATCH (s:Session)-[:SURFACED]->(:Theme) RETURN DISTINCT s.id AS id\<close>, restricted to the
  ids that are strings (a row id is a string).
\<close>

definition get_processed_session_ids :: "graph \<Rightarrow> string list" where
  "get_processed_session_ids g =
     remdups (concat (map (\<lambda>r.
       if rel_type r = ''SURFACED'' \<and> rel_src r < length (nodes g) \<and> rel_dst r < length (nodes g)
          \<and> ''Session'' \<in> set (labels (nodes g ! rel_src r))
          \<and> ''Theme'' \<in> set (labels (nodes g ! rel_dst r))
       then (case map_of (node_props (nodes g ! rel_src r)) ''id'' of
               Some (PStr sid) \<Rightarrow> [sid]
             | _ \<Rightarrow> [])
       else []) (rels g)))"

text \<open>The sessions the loop of \<open>main\<close> runs over.\<close>

definition sessions_to_process :: "args \<Rightarrow> session_row list \<Rightarrow> graph \<Rightarrow> session_row list" where
  "sessions_to_process a table g =
     (let sessions = fetch_analyzed_sessions table (arg_session a) in
      if \<not> arg_reprocess a \<and> \<not> given (arg_session a) then
        filter (\<lambda>s. row_id s \<notin> set (get_processed_session_ids g)) sessions
      else sessions)"

text \<open>
  \<open>parser.parse_args()\<close>: the parser of the standard library ends the process with status 2
  on a command line it rejects and with status 0 after \<open>--help\<close>; otherwise it yields the
  arguments. The parser is a parameter of the world the program runs in.
\<close>

datatype parse_result = Parsed args | UsageError | HelpShown

text \<open>
  How a run ends: \<open>sys.exit(n)\<close>, a return from \<open>main\<close>, or an exception that nothing
  catches; the interpreter turns the last into exit status 1.
\<close>

datatype outcome = SysExit nat | Returned | Uncaught py_error

definition exit_status :: "outcome \<Rightarrow> nat" where
  "exit_status out = (case out of SysExit n \<Rightarrow> n | Returned \<Rightarrow> 0 | Uncaught e \<Rightarrow> 1)"

text \<open>
  The state of a run: how it ended, the graph, the number of LLM calls and the success
  count.
\<close>

record run =
  outcome :: outcome
  graph_of :: graph
  llm_calls :: nat
  success_count :: nat

text \<open>
  The loop of \<open>main\<close>. The participant entry is read for the progress line before the
  session is extracted; an extraction is synced and counted.
\<close>

fun process_sessions :: "runtime \<Rightarrow> env \<Rightarrow> session_row list \<Rightarrow> run \<Rightarrow> run" where
  "process_sessions rt ev [] st = st"
| "process_sessions rt ev (session_row # rest) st =
     (case py_get (session_data (session_dict session_row)) ''participant'' (JObj []) of
        Inl e \<Rightarrow> st\<lparr>outcome := Uncaught e\<rparr>
      | Inr participant \<Rightarrow>
          (case py_get participant ''name'' (JStr ''Unknown'') of
             Inl e \<Rightarrow> st\<lparr>outcome := Uncaught e\<rparr>
           | Inr name \<Rightarrow>
               (let r = extract_intelligence rt ev session_row;
                    st1 = st\<lparr>llm_calls := llm_calls st + snd r\<rparr>
                in case fst r of
                     Inl e \<Rightarrow> st1\<lparr>outcome := Uncaught e\<rparr>
                   | Inr None \<Rightarrow> process_sessions rt ev rest st1
                   | Inr (Some extraction) \<Rightarrow>
                       process_sessions rt ev rest
                         (st1\<lparr>graph_of := sync_extraction_to_graph extraction (graph_of st1),
                              success_count := Suc (success_count st1)\<rparr>))))"

record world =
  argv :: "string list"
  parse_args :: "string list \<Rightarrow> parse_result"
  neo4j_reachable :: bool
  table :: "session_row list"
  graph0 :: graph

definition start_run :: "graph \<Rightarrow> run" where
  "start_run g = \<lparr>outcome = Returned, graph_of = g, llm_calls = 0, success_count = 0\<rparr>"

definition main :: "runtime \<Rightarrow> env \<Rightarrow> world \<Rightarrow> run" where
  "main rt ev w =
     (case parse_args w (argv w) of
        UsageError \<Rightarrow> (start_run (graph0 w))\<lparr>outcome := SysExit 2\<rparr>
      | HelpShown \<Rightarrow> (start_run (graph0 w))\<lparr>outcome := SysExit 0\<rparr>
      | Parsed a \<Rightarrow>
          if \<not> neo4j_reachable w then (start_run (graph0 w))\<lparr>outcome := SysExit 1\<rparr>
          else if fetch_analyzed_sessions (table w) (arg_session a) = [] then start_run (graph0 w)
          else if sessions_to_process a (table w) (graph0 w) = [] then start_run (graph0 w)
          else process_sessions rt ev (sessions_to_process a (table w) (graph0 w))
                 (start_run (graph0 w)))"

section \<open>Auxiliary notions for the extractor and example inputs\<close>

text \<open>A response that the assembler skips.\<close>

definition ineligible_response :: "json \<Rightarrow> bool" where
  "ineligible_response r =
     (case r of JObj d \<Rightarrow> \<not> eligible (dict_get d ''inputType'' (JStr [])) | _ \<Rightarrow> False)"

text \<open>
  An environment in which the primary extractor is installed and returns nothing, and the
  direct completion fails.
\<close>

definition example_env :: env where
  "example_env =
     \<lparr>langextract_installed = True,
      extractor_extract = (\<lambda>text instruction. Inr None),
      genai_installed = True,
      GEMINI_API_KEY = ''key'',
      generate_content = (\<lambda>prompt. Inl LLMError)\<rparr>"

text \<open>A session whose only response is a slider value.\<close>

definition slider_row :: session_row where
  "slider_row =
     \<lparr>row_id = ''s0'',
      columns = [(''status'', JStr ''analyzed''),
                 (''responses'', JList [JObj [(''inputType'', JStr ''slider''), (''answer'', JInt 3)]])]\<rparr>"

text \<open>A session whose response carries \<open>"aiFollowUps": null\<close>.\<close>

definition null_followups_row :: session_row where
  "null_followups_row =
     \<lparr>row_id = ''s1'',
      columns = [(''status'', JStr ''analyzed''),
                 (''responses'', JList
                    [JObj [(''inputType'', JStr ''open_text''), (''questionText'', JStr ''q1''),
                           (''answer'', JStr ''a1''), (''aiFollowUps'', JNull)]])]\<rparr>"

text \<open>
  The session of the specification's end-to-end example, a reply of the direct completion
  that names a tool and nothing else about it, and a runtime whose decoder reads that reply.
\<close>

definition tools_row :: session_row where
  "tools_row =
     \<lparr>row_id = ''s1'',
      columns = [(''status'', JStr ''analyzed''),
                 (''responses'', JList
                    [JObj [(''inputType'', JStr ''open_text''),
                           (''questionText'', JStr ''What tools do you use?''),
                           (''answer'', JStr ''We use ChatGPT daily for drafting emails.'')]])]\<rparr>"

definition tools_reply :: string where
  \<open>tools_reply = ''{"tools": [{"name": "ChatGPT"}]}''\<close>

definition tools_runtime :: runtime where
  "tools_runtime =
     example_runtime\<lparr>json_document :=
       (\<lambda>s. if s = tools_reply
            then Some (JObj [(''tools'', JList [JObj [(''name'', JStr ''ChatGPT'')]])])
            else None)\<rparr>"

definition tools_env :: env where
  "tools_env =
     \<lparr>langextract_installed = False,
      extractor_extract = (\<lambda>text instruction. Inl LLMError),
      genai_installed = True,
      GEMINI_API_KEY = ''key'',
      generate_content = (\<lambda>prompt. Inr tools_reply)\<rparr>"

definition chatgpt_tool :: ExtractedTool where
  "chatgpt_tool =
     \<lparr>tool_name = ''ChatGPT'', usage_frequency = None, sophistication = None, use_case = None\<rparr>"

text \<open>An environment in which the primary extractor raises and the direct completion fails.\<close>

definition failing_env :: env where
  "failing_env = example_env\<lparr>extractor_extract := (\<lambda>text instruction. Inl LLMError)\<rparr>"

text \<open>A session whose \<open>responses\<close> entry is \<open>null\<close>, and one whose participant entry is.\<close>

definition null_responses_row :: session_row where
  "null_responses_row =
     \<lparr>row_id = ''s2'', columns = [(''status'', JStr ''analyzed''), (''responses'', JNull)]\<rparr>"

definition null_participant_row :: session_row where
  "null_participant_row =
     \<lparr>row_id = ''s1'',
      columns = (''status'', JStr ''analyzed'') # (''participant'', JNull) # tl (columns tools_row)\<rparr>"

text \<open>An eligible response without question and answer whose follow-up list is \<open>null\<close>.\<close>

definition null_followups_response :: json where
  "null_followups_response = JObj [(''inputType'', JStr ''voice''), (''aiFollowUps'', JNull)]"

text \<open>
  Example runs of the orchestrator. The parser of the examples knows the flags written in
  full.
\<close>

fun example_parse :: "args \<Rightarrow> string list \<Rightarrow> parse_result" where
  "example_parse a [] = Parsed a"
| "example_parse a [x] =
     (if x = ''--reprocess'' then Parsed (a\<lparr>arg_reprocess := True\<rparr>)
      else if x = ''--help'' \<or> x = ''-h'' then HelpShown
      else UsageError)"
| "example_parse a (x # y # rest) =
     (if x = ''--reprocess'' then example_parse (a\<lparr>arg_reprocess := True\<rparr>) (y # rest)
      else if x = ''--session'' then example_parse (a\<lparr>arg_session := Some y\<rparr>) rest
      else if x = ''--help'' \<or> x = ''-h'' then HelpShown
      else UsageError)"

definition empty_graph :: graph where
  "empty_graph = \<lparr>nodes = [], rels = [], clock = 0\<rparr>"

definition example_world :: "string list \<Rightarrow> session_row list \<Rightarrow> graph \<Rightarrow> world" where
  "example_world command_line rows g =
     \<lparr>argv = command_line,
      parse_args = example_parse \<lparr>arg_reprocess = False, arg_session = None\<rparr>,
      neo4j_reachable = True, table = rows, graph0 = g\<rparr>"

definition crash_world :: world where
  "crash_world = example_world [] [null_followups_row] empty_graph"

text \<open>
  A graph that already holds session \<open>s1\<close> with a theme; a session \<open>s1\<close> that is still in
  progress, under the command line \<open>--session s1\<close>; and the analyzed session \<open>s1\<close> under the
  empty command line.
\<close>

definition draft_row :: session_row where
  "draft_row = tools_row\<lparr>columns := (''status'', JStr ''in_progress'') # tl (columns tools_row)\<rparr>"

definition processed_graph :: graph where
  "processed_graph =
     \<lparr>nodes = [\<lparr>labels = [''Session''], node_props = [(''id'', PStr ''s1'')]\<rparr>,
               \<lparr>labels = [''Theme''], node_props = [(''name'', PStr ''ChatGPT adoption'')]\<rparr>],
      rels = [\<lparr>rel_src = 0, rel_type = ''SURFACED'', rel_dst = 1, rel_props = []\<rparr>],
      clock = 7\<rparr>"

definition draft_world :: world where
  "draft_world = example_world [''--session'', ''s1''] [draft_row] processed_graph"

definition done_world :: world where
  "done_world = example_world [] [tools_row] processed_graph"

text \<open>The graph after session \<open>s1\<close> has been synced with the tool of the example reply.\<close>

definition tool_graph :: graph where
  "tool_graph =
     \<lparr>nodes = [\<lparr>labels = [''Session''], node_props = [(''id'', PStr ''s1'')]\<rparr>,
               \<lparr>labels = [''Theme''], node_props = [(''name'', PStr ''ChatGPT adoption'')]\<rparr>,
               \<lparr>labels = [''Tool''],
                node_props = [(''name'', PStr ''ChatGPT''), (''updatedAt'', PTime 7)]\<rparr>],
      rels = [\<lparr>rel_src = 0, rel_type = ''SURFACED'', rel_dst = 1, rel_props = []\<rparr>,
              \<lparr>rel_src = 0, rel_type = ''USES_TOOL'', rel_dst = 2,
               rel_props = [(''frequency'', PStr ''unknown''), (''sophistication'', PStr ''unknown''),
                            (''useCase'', PStr [])]\<rparr>],
      clock = 8\<rparr>"

section \<open>Auxiliary notions for the synchronizer\<close>

text \<open>
  What the statements of the synchronizer match on: the labels of a node and its
  properties \<open>name\<close>, \<open>description\<close> and \<open>id\<close>. No statement sets any of the three.
\<close>

type_synonym view = "string list \<times> pval option \<times> pval option \<times> pval option"

definition key_names :: "string list" where
  "key_names = [''name'', ''description'', ''id'']"

definition keyview :: "node \<Rightarrow> view" where
  "keyview n =
     (labels n, map_of (node_props n) ''name'', map_of (node_props n) ''description'',
      map_of (node_props n) ''id'')"

definition shape :: "graph \<Rightarrow> view list" where
  "shape g = map keyview (nodes g)"

definition view_matches :: "view \<Rightarrow> string \<Rightarrow> string \<Rightarrow> pval \<Rightarrow> bool" where
  "view_matches w L k v =
     (L \<in> set (fst w) \<and>
      (if k = ''name'' then fst (snd w)
       else if k = ''description'' then fst (snd (snd w))
       else snd (snd (snd w))) = Some v)"

definition match_views :: "view list \<Rightarrow> string \<Rightarrow> string \<Rightarrow> pval \<Rightarrow> nat list" where
  "match_views sh L k v = filter (\<lambda>i. view_matches (sh ! i) L k v) [0..<length sh]"

text \<open>The end nodes and type of every relationship.\<close>

definition links :: "graph \<Rightarrow> (nat \<times> string \<times> nat) list" where
  "links g = map (\<lambda>r. (rel_src r, rel_type r, rel_dst r)) (rels g)"

definition quote_view :: view where
  "quote_view = ([''Quote''], None, None, None)"

definition count_nodes :: "graph \<Rightarrow> string \<Rightarrow> nat" where
  "count_nodes g L = length (filter (\<lambda>n. L \<in> set (labels n)) (nodes g))"

definition count_rels :: "graph \<Rightarrow> string \<Rightarrow> nat" where
  "count_rels g T = length (filter (\<lambda>r. rel_type r = T) (rels g))"

text \<open>The session nodes of an id, and the nodes of a natural key.\<close>

definition session_nodes :: "graph \<Rightarrow> string \<Rightarrow> nat list" where
  "session_nodes g sid = match_nodes g ''Session'' ''id'' (PStr sid)"


text \<open>
  Every session node of \<open>sid\<close> has a relationship of type \<open>T\<close> to every node \<open>(L {k: v})\<close>,
  and there is such a node.
\<close>

definition linked :: "graph \<Rightarrow> string \<Rightarrow> string \<Rightarrow> string \<Rightarrow> string \<Rightarrow> string \<Rightarrow> bool" where
  "linked g sid T L k v =
     (match_nodes g L k (PStr v) \<noteq> [] \<and>
      list_all (\<lambda>x. list_all (\<lambda>s. (s, T, x) \<in> set (links g)) (session_nodes g sid))
        (match_nodes g L k (PStr v)))"

text \<open>
  One step of growth: nodes and relationships are only added at the end, the nodes of a key
  that is present stay the same, a key that is absent gets at most one node, and no session
  node appears.
\<close>

definition grows :: "graph \<Rightarrow> graph \<Rightarrow> bool" where
  "grows g g' =
     ((\<exists>new. shape g' = shape g @ new) \<and> (\<exists>new. links g' = links g @ new)
      \<and> (\<forall>L k v. k \<in> set key_names \<and> match_nodes g L k v \<noteq> [] \<longrightarrow>
             match_nodes g' L k v = match_nodes g L k v)
      \<and> (\<forall>L k v. k \<in> set key_names \<and> match_nodes g L k v = [] \<longrightarrow>
             length (match_nodes g' L k v) \<le> 1)
      \<and> (\<forall>sid. session_nodes g' sid = session_nodes g sid))"

section \<open>Auxiliary notions for the statements about the synchronizer\<close>

text \<open>The relationships that MERGE adds.\<close>

definition missing_rels :: "nat list \<Rightarrow> string \<Rightarrow> nat list \<Rightarrow> graph \<Rightarrow> rel list" where
  "missing_rels ss T xs g =
     concat (map (\<lambda>t. concat (map (\<lambda>s.
           if list_ex (\<lambda>r. rel_matches r [s] T [t]) (rels g) then []
           else [\<lparr>rel_src = s, rel_type = T, rel_dst = t, rel_props = []\<rparr>]) ss)) xs)"

definition dim_linked :: "graph \<Rightarrow> string \<Rightarrow> string \<Rightarrow> bool" where
  "dim_linked g theme dimension =
     (match_nodes g ''Theme'' ''name'' (PStr theme) \<noteq> []
      \<and> match_nodes g ''ScoringDimension'' ''name'' (PStr dimension) \<noteq> []
      \<and> list_all (\<lambda>x. list_all (\<lambda>t. (t, ''RELATES_TO'', x) \<in> set (links g))
                       (match_nodes g ''Theme'' ''name'' (PStr theme)))
           (match_nodes g ''ScoringDimension'' ''name'' (PStr dimension)))"

definition quote_node :: "ExtractedQuote \<Rightarrow> nat \<Rightarrow> node" where
  "quote_node quote now =
     \<lparr>labels = [''Quote''],
      node_props =
        [(''text'', PStr (quote_text quote)), (''context'', PStr (quote_context quote)),
         (''sentiment'', PStr (SentimentType_value (quote_sentiment quote))),
         (''testimonial'', PBool (usable_as_testimonial quote)),
         (''createdAt'', PTime now)]\<rparr>"

definition theme_covered :: "graph \<Rightarrow> string \<Rightarrow> ExtractedTheme \<Rightarrow> bool" where
  "theme_covered g sid theme =
     (linked g sid ''SURFACED'' ''Theme'' ''name'' (theme_name theme)
      \<and> list_all (dim_linked g (theme_name theme)) (related_dimensions theme))"

definition covered :: "graph \<Rightarrow> SessionExtraction \<Rightarrow> bool" where
  "covered g e =
     (list_all (theme_covered g (session_id e)) (themes e)
      \<and> list_all (\<lambda>t. linked g (session_id e) ''USES_TOOL'' ''Tool'' ''name'' (tool_name t)) (tools e)
      \<and> list_all (\<lambda>p. linked g (session_id e) ''HAS_PAIN_POINT'' ''PainPoint'' ''description''
                          (pp_description p)) (pain_points e)
      \<and> list_all (\<lambda>x. linked g (session_id e) ''HAS_GOAL'' ''Goal'' ''description''
                          (goal_description x)) (goals e))"

definition sync_entities :: "SessionExtraction \<Rightarrow> graph \<Rightarrow> graph" where
  "sync_entities e g =
     fold (sync_goal (session_id e)) (goals e)
       (fold (sync_pain_point (session_id e)) (pain_points e)
          (fold (sync_tool (session_id e)) (tools e)
             (fold (sync_theme_with_dimensions (session_id e)) (themes e) g)))"

text \<open>
  An extraction with one entity of every kind, for a given session id, and the graph after it
  has been synced into \<open>processed_graph\<close> for the session \<open>s9\<close>, which has no node there.
\<close>

definition report_extraction :: "string \<Rightarrow> SessionExtraction" where
  "report_extraction sid =
     \<lparr>session_id = sid, participant_name = JStr ''Ada'', company = JStr ''Acme'',
      themes = [\<lparr>theme_name = ''ChatGPT adoption'', category = TOOL, theme_sentiment = POSITIVE,
                 related_dimensions = [''ai_action''], evidence = ''We use it daily'',
                 confidence = 4 / 5\<rparr>],
      tools = [chatgpt_tool],
      pain_points = [\<lparr>pp_description = ''Slow reporting'', severity = ''high'',
                      area = ''operations'', potential_ai_solution = None\<rparr>],
      goals = [\<lparr>goal_description = ''Automate reports'', timeframe = None, related_to_ai = True\<rparr>],
      quotes = [\<lparr>quote_text = ''It saves me hours'', quote_context = ''tools'',
                 quote_sentiment = POSITIVE, usable_as_testimonial = True\<rparr>]\<rparr>"

definition orphan_graph :: graph where
  "orphan_graph =
     \<lparr>nodes = [\<lparr>labels = [''Session''], node_props = [(''id'', PStr ''s1'')]\<rparr>,
               \<lparr>labels = [''Theme''],
                node_props = [(''name'', PStr ''ChatGPT adoption''), (''category'', PStr ''tool''),
                              (''updatedAt'', PTime 7)]\<rparr>,
               \<lparr>labels = [''ScoringDimension''], node_props = [(''name'', PStr ''ai_action'')]\<rparr>,
               \<lparr>labels = [''Tool''],
                node_props = [(''name'', PStr ''ChatGPT''), (''updatedAt'', PTime 9)]\<rparr>,
               \<lparr>labels = [''PainPoint''],
                node_props = [(''description'', PStr ''Slow reporting''), (''severity'', PStr ''high''),
                              (''area'', PStr ''operations''), (''updatedAt'', PTime 10)]\<rparr>,
               \<lparr>labels = [''Goal''],
                node_props = [(''description'', PStr ''Automate reports''),
                              (''timeframe'', PStr ''unspecified''), (''relatedToAi'', PBool True),
                              (''updatedAt'', PTime 11)]\<rparr>],
      rels = [\<lparr>rel_src = 0, rel_type = ''SURFACED'', rel_dst = 1, rel_props = []\<rparr>,
              \<lparr>rel_src = 1, rel_type = ''RELATES_TO'', rel_dst = 2, rel_props = []\<rparr>],
      clock = 13\<rparr>"

text \<open>
  The relationships of \<open>h\<close> are those of \<open>g\<close>, unchanged, followed by \<open>RELATES_TO\<close>
  relationships without properties.
\<close>

definition extends :: "graph \<Rightarrow> graph \<Rightarrow> bool" where
  "extends g h = (\<exists>dl. rels h = rels g @ dl
                      \<and> list_all (\<lambda>r. rel_type r = ''RELATES_TO'' \<and> rel_props r = []) dl)"

text \<open>As many \<open>Quote\<close> nodes and \<open>QUOTED\<close> relationships as before.\<close>

definition quotes_kept :: "graph \<Rightarrow> graph \<Rightarrow> bool" where
  "quotes_kept g h = (count_nodes h ''Quote'' = count_nodes g ''Quote''
                      \<and> count_rels h ''QUOTED'' = count_rels g ''QUOTED'')"



section \<open>The conversation assembler\<close>

lemma scanstring_plain:
  "list_all plain_char t \<Longrightarrow> scanstring (t @ dq # rest) = Some (t, rest)"
  by (induction t) (auto simp: plain_char_def)

lemma json_loads_quoted:
  "json_loads rt (dq # cs) =
     (case scanstring cs of
        None \<Rightarrow> None
      | Some dr \<Rightarrow> if dropWhile json_ws (snd dr) = [] then Some (JStr (fst dr)) else None)"
  by (simp add: json_loads_def json_ws_def dq_def)

lemma unwrap_plain:
  assumes "list_all plain_char t"
  shows "unwrap_answer rt (JStr (dq # t @ [dq])) = JStr t"
  using scanstring_plain [OF assms, of "[]"]
  by (simp add: unwrap_answer_def startswith_def endswith_def json_loads_quoted)

lemma unwrap_empty: "unwrap_answer rt (JStr []) = JStr []"
  by (simp add: unwrap_answer_def startswith_def)

lemma followup_parts_dicts:
  "list_all is_dict fs \<Longrightarrow> followup_parts rt fs = Inr (concat (map (followup_blocks rt) fs))"
  by (induction fs) (auto simp: is_dict_def the_dict_def followup_blocks_def split: json.splits)

lemma response_parts_well_formed:
  "well_formed_response r \<Longrightarrow> response_parts rt r = Inr (response_blocks rt r)"
  by (auto simp: well_formed_response_def response_parts_def response_blocks_def the_dict_def
      followups_def followup_parts_dicts split: json.splits if_splits)

lemma conversation_parts_well_formed:
  "list_all well_formed_response rs \<Longrightarrow>
   conversation_parts rt rs = Inr (concat (map (response_blocks rt) rs))"
  by (induction rs) (auto simp: response_parts_well_formed)

lemma transcript_well_formed:
  assumes "py_get (session_data session) ''responses'' (JList []) = Inr (JList rs)"
      and "list_all well_formed_response rs"
  shows "get_ai_conversation_text rt session =
           Inr (join [nl, nl] (concat (map (response_blocks rt) rs)))"
  using assms by (simp add: get_ai_conversation_text_def conversation_parts_well_formed)

text \<open>
  Claim C7. An answer that is a string starting and ending with a double quote is given to
  the JSON decoder once: when the decoder succeeds the answer becomes the decoded string
  (the string the scanner reads after the opening quote), when it fails the raw string is
  kept, and a string that does not start and end with a double quote passes through
  unchanged. In particular a quoted text without quotes, backslashes or control characters
  inside is unwrapped, and the answer stored as \<open>"hello"\<close> (with its quotes) appears in the
  transcript as \<open>hello\<close>.
\<close>

theorem unwrap_answer_decodes_once:
  "(startswith s [dq] \<and> endswith s [dq] \<and> json_loads rt s = Some v \<longrightarrow>
      unwrap_answer rt (JStr s) = v \<and> (\<exists>t rest. scanstring (tl s) = Some (t, rest) \<and> v = JStr t))
   \<and> (startswith s [dq] \<and> endswith s [dq] \<and> json_loads rt s = None \<longrightarrow>
        unwrap_answer rt (JStr s) = JStr s)
   \<and> (\<not> (startswith s [dq] \<and> endswith s [dq]) \<longrightarrow> unwrap_answer rt (JStr s) = JStr s)
   \<and> (list_all plain_char t \<longrightarrow> unwrap_answer rt (JStr (dq # t @ [dq])) = JStr t)
   \<and> get_ai_conversation_text rt hello_session = Inr (''Q: q1'' @ [nl] @ ''A: hello'')"
proof (intro conjI impI)
  assume a: "startswith s [dq] \<and> endswith s [dq] \<and> json_loads rt s = Some v"
  then obtain cs where s: "s = dq # cs"
    by (cases s) (auto simp: startswith_def)
  from a show "unwrap_answer rt (JStr s) = v"
    by (simp add: unwrap_answer_def)
  from a s show "\<exists>t rest. scanstring (tl s) = Some (t, rest) \<and> v = JStr t"
    by (auto simp: json_loads_quoted split: option.splits if_splits)
next
  assume "startswith s [dq] \<and> endswith s [dq] \<and> json_loads rt s = None"
  then show "unwrap_answer rt (JStr s) = JStr s"
    by (simp add: unwrap_answer_def)
next
  assume "\<not> (startswith s [dq] \<and> endswith s [dq])"
  then show "unwrap_answer rt (JStr s) = JStr s"
    by (auto simp: unwrap_answer_def)
next
  assume "list_all plain_char t"
  then show "unwrap_answer rt (JStr (dq # t @ [dq])) = JStr t"
    by (rule unwrap_plain)
next
  have "unwrap_answer rt (JStr (dq # ''hello'' @ [dq])) = JStr ''hello''"
    by (rule unwrap_plain) (simp add: plain_char_def dq_def backslash_def)
  then show "get_ai_conversation_text rt hello_session = Inr (''Q: q1'' @ [nl] @ ''A: hello'')"
    by (simp add: get_ai_conversation_text_def hello_session_def session_data_def dict_get_def
        response_parts_def eligible_def qa_block_def py_str_def)
qed

text \<open>
  Witness for C7: \<open>"hello"\<close> is unwrapped; the encoding of \<open>"hi"\<close> is decoded once only, its
  inner quotes stay; a text the decoder rejects and an unquoted text are kept.
\<close>

theorem unwrap_answer_decodes_once_witness:
  "unwrap_answer example_runtime (JStr (dq # ''hello'' @ [dq])) = JStr ''hello''
   \<and> unwrap_answer example_runtime (JStr [dq, backslash, dq, CHR ''h'', CHR ''i'', backslash, dq, dq])
       = JStr (dq # ''hi'' @ [dq])
   \<and> unwrap_answer example_runtime (JStr (dq # ''a'' @ [dq] @ ''b'' @ [dq])) = JStr (dq # ''a'' @ [dq] @ ''b'' @ [dq])
   \<and> unwrap_answer example_runtime (JStr ''hello'') = JStr ''hello''"
proof -
  let ?rt = example_runtime
  let ?once = "[dq, backslash, dq, CHR ''h'', CHR ''i'', backslash, dq, dq]"
  let ?bad = "dq # ''a'' @ [dq] @ ''b'' @ [dq]"
  have 1: "list_all plain_char ''hello''"
    by (simp add: plain_char_def dq_def backslash_def)
  have 2: "startswith ?once [dq] \<and> endswith ?once [dq] \<and>
           json_loads ?rt ?once = Some (JStr (dq # ''hi'' @ [dq]))"
    by (simp add: startswith_def endswith_def json_loads_def json_ws_def backslash_char_def
        dq_def backslash_def)
  have 3: "startswith ?bad [dq] \<and> endswith ?bad [dq] \<and> json_loads ?rt ?bad = None"
    by (simp add: startswith_def endswith_def json_loads_def dq_def backslash_def json_ws_def)
  have 4: "\<not> (startswith ''hello'' [dq] \<and> endswith ''hello'' [dq])"
    by (simp add: startswith_def dq_def)
  from 1 unwrap_answer_decodes_once [of _ ?rt _ "''hello''"]
  have a: "unwrap_answer ?rt (JStr (dq # ''hello'' @ [dq])) = JStr ''hello''"
    by blast
  from 2 unwrap_answer_decodes_once [of ?once ?rt "JStr (dq # ''hi'' @ [dq])"]
  have b: "unwrap_answer ?rt (JStr ?once) = JStr (dq # ''hi'' @ [dq])"
    by blast
  from 3 unwrap_answer_decodes_once [of ?bad ?rt]
  have c: "unwrap_answer ?rt (JStr ?bad) = JStr ?bad"
    by blast
  from 4 unwrap_answer_decodes_once [of "''hello''" ?rt]
  have d: "unwrap_answer ?rt (JStr ''hello'') = JStr ''hello''"
    by blast
  from a b c d show ?thesis
    by simp
qed

text \<open>
  Claim C10, as amended. An eligible response whose follow-up list is absent or a list of
  dictionaries always yields its parts. Without \<open>questionText\<close> the question line reads
  \<open>Q: Unknown question\<close>; without \<open>answer\<close> nothing follows \<open>A: \<close>; a follow-up without
  \<open>question\<close> or \<open>answer\<close> contributes the empty string after its prefix.
\<close>

theorem missing_fields_take_defaults:
  assumes "eligible (dict_get d ''inputType'' (JStr []))"
      and "dict_get d ''aiFollowUps'' (JList []) = JList fs"
      and "list_all is_dict fs"
  shows "(\<exists>block. response_parts rt (JObj d) = Inr (block # concat (map (followup_blocks rt) fs)))
    \<and> (map_of d ''questionText'' = None \<longrightarrow>
         (\<exists>a. response_parts rt (JObj d) =
            Inr ((''Q: Unknown question'' @ [nl] @ ''A: '' @ a) # concat (map (followup_blocks rt) fs))))
    \<and> (map_of d ''answer'' = None \<longrightarrow>
         (\<exists>q. response_parts rt (JObj d) =
            Inr ((''Q: '' @ q @ [nl] @ ''A: '') # concat (map (followup_blocks rt) fs))))
    \<and> (map_of d ''questionText'' = None \<and> map_of d ''answer'' = None \<longrightarrow>
         response_parts rt (JObj d) =
            Inr ((''Q: Unknown question'' @ [nl] @ ''A: '') # concat (map (followup_blocks rt) fs)))
    \<and> (\<forall>f. map_of f ''question'' = None \<and> map_of f ''answer'' = None \<longrightarrow>
          followup_parts rt [JObj f] = Inr [''Follow-up Q: '', ''Follow-up A: ''])
    \<and> (\<forall>f. map_of f ''question'' = None \<longrightarrow>
          (\<exists>a. followup_parts rt [JObj f] = Inr [''Follow-up Q: '', ''Follow-up A: '' @ a]))
    \<and> (\<forall>f. map_of f ''answer'' = None \<longrightarrow>
          (\<exists>q. followup_parts rt [JObj f] = Inr [''Follow-up Q: '' @ q, ''Follow-up A: '']))"
proof -
  have wf: "well_formed_response (JObj d)"
    using assms by (simp add: well_formed_response_def)
  have rp: "response_parts rt (JObj d) =
      Inr (qa_block rt (dict_get d ''questionText'' (JStr ''Unknown question''))
             (unwrap_answer rt (dict_get d ''answer'' (JStr [])))
           # concat (map (followup_blocks rt) fs))"
    using response_parts_well_formed [OF wf, of rt] assms
    by (simp add: response_blocks_def the_dict_def followups_def)
  show ?thesis
    unfolding rp
    by (auto simp: qa_block_def dict_get_def py_str_def unwrap_empty)
qed

text \<open>
  Witness for C10: a voice response that has no other field, and a follow-up without fields.
\<close>

theorem missing_fields_take_defaults_witness:
  "response_parts example_runtime (JObj [(''inputType'', JStr ''voice'')]) =
     Inr [''Q: Unknown question\<newline>A: '']
   \<and> followup_parts example_runtime [JObj []] = Inr [''Follow-up Q: '', ''Follow-up A: '']"
proof -
  let ?d = "[(''inputType'', JStr ''voice'')]"
  have 1: "eligible (dict_get ?d ''inputType'' (JStr []))"
    by (simp add: eligible_def dict_get_def)
  have 2: "dict_get ?d ''aiFollowUps'' (JList []) = JList []"
    by (simp add: dict_get_def)
  have 3: "list_all is_dict []"
    by simp
  from missing_fields_take_defaults [OF 1 2 3, of example_runtime]
  show ?thesis
    by (simp add: nl_def)
qed

text \<open>
  Counterexample for C10 as stated: an eligible response without question and answer whose
  follow-up list is \<open>null\<close>. The loop over the follow-ups raises \<open>TypeError\<close>, so the
  assembler fails on a record with these fields absent.
\<close>

theorem missing_fields_counterexample:
  "eligible (dict_get (the_dict null_followups_response) ''inputType'' (JStr []))
   \<and> map_of (the_dict null_followups_response) ''questionText'' = None
   \<and> map_of (the_dict null_followups_response) ''answer'' = None
   \<and> response_parts example_runtime null_followups_response = Inl TypeError
   \<and> get_ai_conversation_text example_runtime
        [(''responses'', JList [null_followups_response])] = Inl TypeError"
  by code_simp

text \<open>
  Claim C6, as amended. For a session whose responses are a list of well-formed responses,
  the transcript is the blocks of the eligible responses in their order, joined with a blank
  line; the blocks of a response are \<open>Q: question\<close>, newline, \<open>A: answer\<close>, and then for
  every follow-up entry two blocks of their own, \<open>Follow-up Q: question\<close> and
  \<open>Follow-up A: answer\<close>.
\<close>

theorem transcript_blocks:
  assumes "py_get (session_data session) ''responses'' (JList []) = Inr (JList rs)"
      and "list_all well_formed_response rs"
  shows "get_ai_conversation_text rt session =
           Inr (join [nl, nl] (concat (map (response_blocks rt) rs)))"
  using assms by (rule transcript_well_formed)

text \<open>Witness for C6: one response with one follow-up.\<close>

theorem transcript_blocks_witness:
  "get_ai_conversation_text example_runtime followup_session =
     Inr ''Q: q1\<newline>A: a1\<newline>\<newline>Follow-up Q: fq\<newline>\<newline>Follow-up A: fa''"
proof -
  have 1: "py_get (session_data followup_session) ''responses'' (JList []) =
             Inr (JList followup_responses)"
    by (simp add: followup_session_def session_data_def dict_get_def)
  have 2: "list_all well_formed_response followup_responses"
    by (simp add: followup_responses_def well_formed_response_def eligible_def dict_get_def
        is_dict_def)
  from transcript_blocks [OF 1 2, of example_runtime]
  show ?thesis
    by (simp add: followup_responses_def response_blocks_def the_dict_def eligible_def
        dict_get_def followups_def followup_blocks_def qa_block_def py_str_def unwrap_answer_def
        startswith_def nl_def dq_def)
qed

text \<open>
  Counterexample for C6 as stated: with one follow-up the transcript has three blocks, the
  follow-up question and answer in blocks of their own with the prefix \<open>Follow-up\<close>, and
  not the two \<open>Q: ... A: ...\<close> blocks of the specification.
\<close>

theorem followup_block_counterexample:
  "get_ai_conversation_text example_runtime followup_session =
     Inr ''Q: q1\<newline>A: a1\<newline>\<newline>Follow-up Q: fq\<newline>\<newline>Follow-up A: fa''
   \<and> spec_transcript example_runtime followup_responses =
        ''Q: q1\<newline>A: a1\<newline>\<newline>Q: fq\<newline>A: fa''
   \<and> get_ai_conversation_text example_runtime followup_session \<noteq>
        Inr (spec_transcript example_runtime followup_responses)"
  by (simp add: get_ai_conversation_text_def followup_session_def followup_responses_def
      session_data_def dict_get_def response_parts_def eligible_def qa_block_def py_str_def
      unwrap_answer_def startswith_def nl_def dq_def spec_transcript_def spec_response_blocks_def
      the_dict_def followups_def)

section \<open>The intelligence extractor\<close>

lemma lstrip_chars_empty: "lstrip_chars ws [] = []"
proof -
  have "find (\<lambda>w. w \<noteq> [] \<and> startswith [] w) ws = None"
    by (auto simp: find_None_iff startswith_def)
  then show ?thesis
    by (subst lstrip_chars.simps) simp
qed

lemma strip_empty: "strip [] = []"
  by (simp add: strip_def lstrip_chars_empty)

lemma conversation_parts_ineligible:
  "list_all ineligible_response rs \<Longrightarrow> conversation_parts rt rs = Inr []"
  by (induction rs)
     (auto simp: ineligible_response_def response_parts_def split: json.splits)

lemma py_get_Inr_dict: "py_get v k dflt = Inr x \<Longrightarrow> \<exists>d. v = JObj d"
  by (cases v) auto

text \<open>
  Claim C4, as amended. A session whose responses can be walked (the session data is a
  dictionary, its \<open>responses\<close> entry is absent or can be iterated, and every response is a
  dictionary) and are all skipped (none has an input type among \<open>ai_conversation\<close>,
  \<open>open_text\<close>, \<open>voice\<close>) has the empty transcript, and both the primary and the fallback
  extractor return "no result" without a single LLM call, whatever the environment. A
  session with an eligible response does reach the LLM.
\<close>

theorem no_eligible_response_no_llm_call:
  assumes "py_get (session_data (session_dict session)) ''responses'' (JList []) = Inr responses"
      and "py_iter responses = Inr rs"
      and "list_all ineligible_response rs"
  shows "get_ai_conversation_text rt (session_dict session) = Inr []
       \<and> extract_intelligence rt ev session = (Inr None, 0)
       \<and> extract_with_gemini_direct rt ev session = (Inr None, 0)
       \<and> extract_intelligence example_runtime example_env tools_row = (Inr None, 1)
       \<and> extract_intelligence example_runtime failing_env tools_row = (Inr None, 2)"
proof -
  from assms(1) obtain d where d: "session_data (session_dict session) = JObj d"
    by (auto dest: py_get_Inr_dict)
  have t: "get_ai_conversation_text rt (session_dict session) = Inr []"
    using assms by (simp add: get_ai_conversation_text_def conversation_parts_ineligible)
  have f: "extract_with_gemini_direct rt ev session = (Inr None, 0)"
    by (simp add: extract_with_gemini_direct_def d t strip_empty)
  have p: "extract_intelligence rt ev session = (Inr None, 0)"
    by (simp add: extract_intelligence_def d t strip_empty f)
  have c1: "extract_intelligence example_runtime example_env tools_row = (Inr None, 1)"
    by code_simp
  have c2: "extract_intelligence example_runtime failing_env tools_row = (Inr None, 2)"
    by code_simp
  from t f p c1 c2 show ?thesis
    by simp
qed

text \<open>Witness for C4: a session with a slider response only.\<close>

theorem no_eligible_response_no_llm_call_witness:
  "get_ai_conversation_text example_runtime (session_dict slider_row) = Inr []
   \<and> extract_intelligence example_runtime example_env slider_row = (Inr None, 0)
   \<and> extract_with_gemini_direct example_runtime example_env slider_row = (Inr None, 0)"
proof -
  let ?rs = "[JObj [(''inputType'', JStr ''slider''), (''answer'', JInt 3)]]"
  have 1: "py_get (session_data (session_dict slider_row)) ''responses'' (JList []) = Inr (JList ?rs)"
    by (simp add: session_data_def session_dict_def slider_row_def dict_get_def)
  have 2: "py_iter (JList ?rs) = Inr ?rs"
    by simp
  have 3: "list_all ineligible_response ?rs"
    by (simp add: ineligible_response_def eligible_def dict_get_def)
  from no_eligible_response_no_llm_call [OF 1 2 3] show ?thesis
    by simp
qed

text \<open>
  Counterexample for C4 as stated: a session whose \<open>responses\<close> entry is \<open>null\<close> has no
  eligible response, yet the loop over the responses raises \<open>TypeError\<close>: no transcript is
  returned and both extractors raise instead of returning "no result".
\<close>

theorem no_eligible_response_counterexample:
  "get_ai_conversation_text example_runtime (session_dict null_responses_row) = Inl TypeError
   \<and> extract_intelligence example_runtime example_env null_responses_row = (Inl TypeError, 0)
   \<and> extract_with_gemini_direct example_runtime example_env null_responses_row = (Inl TypeError, 0)"
  by code_simp

lemma extraction_prompt_dict: "\<exists>i. extraction_prompt rt (JObj p) text = Inr i"
  by (simp add: extraction_prompt_def)

lemma gemini_prompt_dict: "\<exists>i. gemini_prompt rt (JObj p) text = Inr i"
  by (simp add: gemini_prompt_def)

lemma gemini_direct_no_raise:
  assumes "get_ai_conversation_text rt (session_dict session) = Inr text"
      and "py_get (session_data (session_dict session)) ''participant'' (JObj []) = Inr (JObj p)"
  shows "\<exists>r n. extract_with_gemini_direct rt ev session = (Inr r, n)"
proof -
  obtain i where "gemini_prompt rt (JObj p) text = Inr i"
    using gemini_prompt_dict by blast
  then show ?thesis
    using assms by (auto simp: extract_with_gemini_direct_def split: sum.splits)
qed

text \<open>
  Claim C3, as amended. For a session record whose transcript can be assembled and whose
  participant entry is a dictionary (or absent), \<open>extract_intelligence\<close> and its fallback
  return a \<open>SessionExtraction\<close> or "no result" and never raise. When the primary mechanism
  is not installed the result is the fallback's; when the primary call raises, the
  fallback is invoked and its result returned; and inside the fallback a failing completion
  call and any parse or validation failure yield "no result".
\<close>

theorem extract_intelligence_no_raise:
  assumes "get_ai_conversation_text rt (session_dict session) = Inr text"
      and "py_get (session_data (session_dict session)) ''participant'' (JObj []) = Inr (JObj p)"
  shows "(\<exists>r n. extract_intelligence rt ev session = (Inr r, n))
    \<and> (\<exists>r n. extract_with_gemini_direct rt ev session = (Inr r, n))
    \<and> (\<not> langextract_installed ev \<longrightarrow>
          extract_intelligence rt ev session = extract_with_gemini_direct rt ev session)
    \<and> (\<forall>instruction e.
          langextract_installed ev \<and> strip text \<noteq> []
          \<and> extraction_prompt rt (JObj p) text = Inr instruction
          \<and> extractor_extract ev text instruction = Inl e \<longrightarrow>
          extract_intelligence rt ev session =
            (fst (extract_with_gemini_direct rt ev session),
             Suc (snd (extract_with_gemini_direct rt ev session))))
    \<and> (\<forall>prompt e.
          genai_installed ev \<and> GEMINI_API_KEY ev \<noteq> [] \<and> strip text \<noteq> []
          \<and> gemini_prompt rt (JObj p) text = Inr prompt
          \<and> generate_content ev prompt = Inl e \<longrightarrow>
          extract_with_gemini_direct rt ev session = (Inr None, 1))
    \<and> (\<forall>prompt reply e.
          genai_installed ev \<and> GEMINI_API_KEY ev \<noteq> [] \<and> strip text \<noteq> []
          \<and> gemini_prompt rt (JObj p) text = Inr prompt
          \<and> generate_content ev prompt = Inr reply
          \<and> build_extraction rt session (JObj p) reply = Inl e \<longrightarrow>
          extract_with_gemini_direct rt ev session = (Inr None, 1))"
proof -
  obtain i where i: "extraction_prompt rt (JObj p) text = Inr i"
    using extraction_prompt_dict by blast
  obtain r n where f: "extract_with_gemini_direct rt ev session = (Inr r, n)"
    using gemini_direct_no_raise [OF assms] by blast
  have 1: "\<exists>r n. extract_intelligence rt ev session = (Inr r, n)"
    using assms i f
    by (auto simp: extract_intelligence_def Let_def split: sum.splits option.splits)
  have 3: "\<not> langextract_installed ev \<longrightarrow>
          extract_intelligence rt ev session = extract_with_gemini_direct rt ev session"
    by (simp add: extract_intelligence_def)
  have 4: "\<forall>instruction e.
          langextract_installed ev \<and> strip text \<noteq> []
          \<and> extraction_prompt rt (JObj p) text = Inr instruction
          \<and> extractor_extract ev text instruction = Inl e \<longrightarrow>
          extract_intelligence rt ev session =
            (fst (extract_with_gemini_direct rt ev session),
             Suc (snd (extract_with_gemini_direct rt ev session)))"
    using assms by (auto simp: extract_intelligence_def Let_def)
  have 5: "\<forall>prompt e.
          genai_installed ev \<and> GEMINI_API_KEY ev \<noteq> [] \<and> strip text \<noteq> []
          \<and> gemini_prompt rt (JObj p) text = Inr prompt
          \<and> generate_content ev prompt = Inl e \<longrightarrow>
          extract_with_gemini_direct rt ev session = (Inr None, 1)"
    using assms by (auto simp: extract_with_gemini_direct_def)
  have 6: "\<forall>prompt reply e.
          genai_installed ev \<and> GEMINI_API_KEY ev \<noteq> [] \<and> strip text \<noteq> []
          \<and> gemini_prompt rt (JObj p) text = Inr prompt
          \<and> generate_content ev prompt = Inr reply
          \<and> build_extraction rt session (JObj p) reply = Inl e \<longrightarrow>
          extract_with_gemini_direct rt ev session = (Inr None, 1)"
    using assms by (auto simp: extract_with_gemini_direct_def)
  from 1 f 3 4 5 6 show ?thesis
    by blast
qed

text \<open>
  Witness for C3: the primary call raises, the fallback is invoked and its completion call
  fails; the result is "no result" after two LLM calls.
\<close>

theorem extract_intelligence_no_raise_witness:
  "extract_intelligence example_runtime failing_env tools_row = (Inr None, 2)"
proof -
  let ?text = "''Q: What tools do you use?\<newline>A: We use ChatGPT daily for drafting emails.''"
  have 1: "get_ai_conversation_text example_runtime (session_dict tools_row) = Inr ?text"
    by code_simp
  have 2: "py_get (session_data (session_dict tools_row)) ''participant'' (JObj []) = Inr (JObj [])"
    by (simp add: session_data_def session_dict_def tools_row_def dict_get_def)
  have 3: "strip ?text \<noteq> []"
    by code_simp
  obtain i where i: "extraction_prompt example_runtime (JObj []) ?text = Inr i"
    using extraction_prompt_dict by blast
  obtain q where q: "gemini_prompt example_runtime (JObj []) ?text = Inr q"
    using gemini_prompt_dict by blast
  have 4: "langextract_installed failing_env \<and> extractor_extract failing_env ?text i = Inl LLMError"
    by (simp add: failing_env_def example_env_def)
  have 5: "genai_installed failing_env \<and> GEMINI_API_KEY failing_env \<noteq> []
           \<and> generate_content failing_env q = Inl LLMError"
    by (simp add: failing_env_def example_env_def)
  note t = extract_intelligence_no_raise [OF 1 2, of failing_env]
  from t 3 q 5 have f: "extract_with_gemini_direct example_runtime failing_env tools_row = (Inr None, 1)"
    by blast
  from t 3 i 4 have "extract_intelligence example_runtime failing_env tools_row =
            (fst (extract_with_gemini_direct example_runtime failing_env tools_row),
             Suc (snd (extract_with_gemini_direct example_runtime failing_env tools_row)))"
    by blast
  with f show ?thesis
    by simp
qed

text \<open>
  Counterexample for C3 as stated: a session whose response carries \<open>"aiFollowUps": null\<close>.
  The loop over the follow-ups raises \<open>TypeError\<close> while the transcript is assembled, outside
  every \<open>try\<close> of both paths, and the exception reaches the caller.
\<close>

theorem extract_intelligence_raises_counterexample:
  "extract_intelligence example_runtime example_env null_followups_row = (Inl TypeError, 0)
   \<and> extract_with_gemini_direct example_runtime example_env null_followups_row = (Inl TypeError, 0)"
  by code_simp

section \<open>The graph synchronizer\<close>

lemma map_of_set_props: "map_of (set_props kvs ps) = map_of ps ++ map_of (rev kvs)"
  unfolding set_props_def
proof (induction kvs arbitrary: ps)
  case Nil
  then show ?case by simp
next
  case (Cons kv kvs)
  have "map_of (fold (\<lambda>kv. AList.update (fst kv) (snd kv)) (kv # kvs) ps)
        = map_of (AList.update (fst kv) (snd kv) ps) ++ map_of (rev kvs)"
    using Cons.IH by simp
  also have "\<dots> = map_of ps ++ map_of (rev (kv # kvs))"
    by (cases kv) (auto simp: update_conv' fun_eq_iff map_add_def split: option.splits)
  finally show ?case .
qed

lemma map_of_set_props_other:
  "k \<notin> fst ` set kvs \<Longrightarrow> map_of (set_props kvs ps) k = map_of ps k"
proof -
  assume "k \<notin> fst ` set kvs"
  then have "map_of (rev kvs) k = None"
    by (simp add: map_of_eq_None_iff)
  then show ?thesis
    by (simp add: map_of_set_props map_add_def)
qed

lemma keyview_set_props:
  assumes "fst ` set kvs \<inter> set key_names = {}"
  shows "keyview (n\<lparr>node_props := set_props kvs (node_props n)\<rparr>) = keyview n"
proof -
  from assms have "''name'' \<notin> fst ` set kvs" "''description'' \<notin> fst ` set kvs"
    "''id'' \<notin> fst ` set kvs"
    by (auto simp: key_names_def)
  then show ?thesis
    by (simp add: keyview_def map_of_set_props_other)
qed

lemma shape_set_nodes:
  assumes "fst ` set kvs \<inter> set key_names = {}"
  shows "shape (set_nodes xs kvs g) = shape g"
proof -
  let ?f = "\<lambda>i. if i \<in> set xs
                then (nodes g ! i)\<lparr>node_props := set_props kvs (node_props (nodes g ! i))\<rparr>
                else nodes g ! i"
  have "\<And>i. keyview (?f i) = keyview (nodes g ! i)"
    by (simp add: keyview_set_props [OF assms])
  then have "map keyview (map ?f [0..<length (nodes g)]) = map (\<lambda>i. keyview (nodes g ! i)) [0..<length (nodes g)]"
    by (simp only: map_map o_def)
  also have "\<dots> = map keyview (map ((!) (nodes g)) [0..<length (nodes g)])"
    by (simp add: o_def)
  also have "\<dots> = map keyview (nodes g)"
    by (simp only: map_nth)
  finally show ?thesis
    by (simp add: shape_def set_nodes_def)
qed

lemma node_matches_view:
  "k \<in> set key_names \<Longrightarrow> node_matches n L k v = view_matches (keyview n) L k v"
  by (auto simp: node_matches_def view_matches_def keyview_def key_names_def)

lemma match_nodes_shape:
  "k \<in> set key_names \<Longrightarrow> match_nodes g L k v = match_views (shape g) L k v"
  unfolding match_nodes_def match_views_def shape_def
  by (rule filter_cong) (simp_all add: node_matches_view)

lemma match_views_append:
  "match_views (sh @ new) L k v =
     match_views sh L k v @ map (\<lambda>i. i + length sh) (match_views new L k v)"
proof -
  have "[0..<length sh + length new] = [0..<length sh] @ [length sh..<length sh + length new]"
    by (rule upt_add_eq_append) simp
  also have "[length sh..<length sh + length new] = map (\<lambda>i. i + length sh) [0..<length new]"
    by (simp only: map_add_upt add.commute [of "length sh" "length new"])
  finally have u: "[0..<length (sh @ new)] = [0..<length sh] @ map (\<lambda>i. i + length sh) [0..<length new]"
    by simp
  have a: "filter (\<lambda>i. view_matches ((sh @ new) ! i) L k v) [0..<length sh]
           = filter (\<lambda>i. view_matches (sh ! i) L k v) [0..<length sh]"
    by (rule filter_cong) (simp_all add: nth_append)
  have b: "filter (\<lambda>i. view_matches ((sh @ new) ! i) L k v) (map (\<lambda>i. i + length sh) [0..<length new])
           = map (\<lambda>i. i + length sh) (filter (\<lambda>i. view_matches (new ! i) L k v) [0..<length new])"
    by (simp add: filter_map o_def nth_append)
  show ?thesis
    unfolding match_views_def u filter_append a b ..
qed

lemma new_node_view:
  "keyview \<lparr>labels = [L], node_props = [(k, v)]\<rparr> =
     ([L], if k = ''name'' then Some v else None, if k = ''description'' then Some v else None,
      if k = ''id'' then Some v else None)"
  by (simp add: keyview_def)

lemma new_node_matches:
  assumes "k \<in> set key_names" and "k' \<in> set key_names"
  shows "view_matches (keyview \<lparr>labels = [L], node_props = [(k, v)]\<rparr>) L' k' v'
         \<longleftrightarrow> L' = L \<and> k' = k \<and> v' = v"
  using assms by (auto simp: new_node_view view_matches_def key_names_def)

lemma shape_merge_node:
  "shape (merge_node L k v g) =
     shape g @ (if match_nodes g L k v = [] then [keyview \<lparr>labels = [L], node_props = [(k, v)]\<rparr>] else [])"
  by (simp add: merge_node_def shape_def)

lemma rels_merge_node [simp]: "rels (merge_node L k v g) = rels g"
  by (simp add: merge_node_def)

lemma clock_merge_node [simp]: "clock (merge_node L k v g) = clock g"
  by (simp add: merge_node_def)

lemma links_merge_node [simp]: "links (merge_node L k v g) = links g"
  by (simp add: links_def)

lemma match_views_Nil [simp]: "match_views [] L k v = []"
  by (simp add: match_views_def)

lemma match_views_single:
  "match_views [w] L k v = (if view_matches w L k v then [0] else [])"
  by (simp add: match_views_def)

lemma match_merge_node:
  assumes "k \<in> set key_names" and "k' \<in> set key_names"
  shows "match_nodes (merge_node L k v g) L' k' v' =
           match_nodes g L' k' v' @
           (if match_nodes g L k v = [] \<and> L' = L \<and> k' = k \<and> v' = v then [length (nodes g)] else [])"
proof -
  have len: "length (shape g) = length (nodes g)"
    by (simp add: shape_def)
  show ?thesis
    using assms
    by (simp add: match_nodes_shape shape_merge_node match_views_append match_views_single
        new_node_matches len)
qed

lemma match_merge_node_self:
  assumes "k \<in> set key_names"
  shows "match_nodes (merge_node L k v g) L k v \<noteq> []"
  using match_merge_node [OF assms assms, of L v g L v] by auto

lemma session_nodes_shape: "session_nodes g sid = match_views (shape g) ''Session'' ''id'' (PStr sid)"
  by (simp add: session_nodes_def match_nodes_shape key_names_def)

lemma grows_refl: "grows g g"
  by (simp add: grows_def)

lemma grows_same:
  assumes "shape g' = shape g" and "links g' = links g"
  shows "grows g g'"
proof -
  have m: "\<And>L k v. k \<in> set key_names \<Longrightarrow> match_nodes g' L k v = match_nodes g L k v"
    by (simp add: match_nodes_shape assms)
  have s: "\<And>sid. session_nodes g' sid = session_nodes g sid"
    by (simp add: session_nodes_shape assms)
  show ?thesis
    unfolding grows_def using assms m s by auto
qed

lemma grows_trans:
  assumes "grows g g'" and "grows g' g''"
  shows "grows g g''"
proof -
  from assms obtain n1 n2 l1 l2 where
    "shape g' = shape g @ n1" "shape g'' = shape g' @ n2"
    "links g' = links g @ l1" "links g'' = links g' @ l2"
    unfolding grows_def by blast
  then have s: "\<exists>new. shape g'' = shape g @ new" and l: "\<exists>new. links g'' = links g @ new"
    by simp_all
  have m: "\<And>L k v. k \<in> set key_names \<Longrightarrow> match_nodes g L k v \<noteq> [] \<Longrightarrow>
            match_nodes g'' L k v = match_nodes g L k v"
    using assms unfolding grows_def by metis
  have c: "\<And>L k v. k \<in> set key_names \<Longrightarrow> match_nodes g L k v = [] \<Longrightarrow>
            length (match_nodes g'' L k v) \<le> 1"
  proof -
    fix L k v assume k: "k \<in> set key_names" and e: "match_nodes g L k v = []"
    from assms(1) k e have 1: "length (match_nodes g' L k v) \<le> 1"
      unfolding grows_def by blast
    show "length (match_nodes g'' L k v) \<le> 1"
    proof (cases "match_nodes g' L k v = []")
      case True
      with assms(2) k show ?thesis unfolding grows_def by blast
    next
      case False
      with assms(2) k have "match_nodes g'' L k v = match_nodes g' L k v"
        unfolding grows_def by blast
      with 1 show ?thesis by simp
    qed
  qed
  have ss: "\<And>sid. session_nodes g'' sid = session_nodes g sid"
    using assms unfolding grows_def by simp
  from s l m c ss show ?thesis
    unfolding grows_def by blast
qed

lemma grows_merge_node:
  assumes "k \<in> set key_names" and "L \<noteq> ''Session''"
  shows "grows g (merge_node L k v g)"
proof -
  have i: "''id'' \<in> set key_names"
    by (simp add: key_names_def)
  have "\<And>sid. session_nodes (merge_node L k v g) sid = session_nodes g sid"
    using assms(2) by (simp add: session_nodes_def match_merge_node [OF assms(1) i])
  moreover have "\<exists>new. shape (merge_node L k v g) = shape g @ new"
    by (simp add: shape_merge_node)
  ultimately show ?thesis
    unfolding grows_def using assms(1)
    by (auto simp: match_merge_node)
qed

lemma nodes_set_nodes_length [simp]: "length (nodes (set_nodes xs kvs g)) = length (nodes g)"
  by (simp add: set_nodes_def)

lemma rels_set_nodes [simp]: "rels (set_nodes xs kvs g) = rels g"
  by (simp add: set_nodes_def)

lemma clock_set_nodes [simp]: "clock (set_nodes xs kvs g) = clock g"
  by (simp add: set_nodes_def)

lemma links_set_nodes [simp]: "links (set_nodes xs kvs g) = links g"
  by (simp add: links_def)


lemma nodes_merge_rels [simp]: "nodes (merge_rels ss T xs g) = nodes g"
  by (simp add: merge_rels_def)

lemma clock_merge_rels [simp]: "clock (merge_rels ss T xs g) = clock g"
  by (simp add: merge_rels_def)

lemma shape_merge_rels [simp]: "shape (merge_rels ss T xs g) = shape g"
  by (simp add: shape_def)

lemma nodes_set_rels [simp]: "nodes (set_rels ss T xs kvs g) = nodes g"
  by (simp add: set_rels_def)

lemma clock_set_rels [simp]: "clock (set_rels ss T xs kvs g) = clock g"
  by (simp add: set_rels_def)

lemma shape_set_rels [simp]: "shape (set_rels ss T xs kvs g) = shape g"
  by (simp add: shape_def)

lemma links_set_rels [simp]: "links (set_rels ss T xs kvs g) = links g"
  by (simp add: links_def set_rels_def rel_matches_def o_def)

lemma nodes_tick [simp]: "nodes (tick g) = nodes g"
  by (simp add: tick_def)

lemma rels_tick [simp]: "rels (tick g) = rels g"
  by (simp add: tick_def)

lemma shape_tick [simp]: "shape (tick g) = shape g"
  by (simp add: shape_def)

lemma links_tick [simp]: "links (tick g) = links g"
  by (simp add: links_def)

lemma match_nodes_cong:
  "nodes g' = nodes g \<Longrightarrow> match_nodes g' L k v = match_nodes g L k v"
  by (simp add: match_nodes_def)

lemma session_nodes_cong:
  "nodes g' = nodes g \<Longrightarrow> session_nodes g' sid = session_nodes g sid"
  by (simp add: session_nodes_def match_nodes_def)

lemma rels_merge_rels: "rels (merge_rels ss T xs g) = rels g @ missing_rels ss T xs g"
  by (simp add: merge_rels_def missing_rels_def)

lemma missing_rels_member:
  "r \<in> set (missing_rels ss T xs g) \<longleftrightarrow>
     (\<exists>x\<in>set xs. \<exists>s\<in>set ss. r = \<lparr>rel_src = s, rel_type = T, rel_dst = x, rel_props = []\<rparr>
        \<and> (s, T, x) \<notin> set (links g))"
  by (auto simp: missing_rels_def list_ex_iff rel_matches_def links_def image_iff split: if_splits)

lemma missing_rels_typed:
  "r \<in> set (missing_rels ss T xs g) \<Longrightarrow>
     rel_type r = T \<and> rel_src r \<in> set ss \<and> rel_dst r \<in> set xs \<and> rel_props r = []"
  by (auto simp: missing_rels_member)

lemma links_merge_rels:
  "links (merge_rels ss T xs g) =
     links g @ map (\<lambda>r. (rel_src r, rel_type r, rel_dst r)) (missing_rels ss T xs g)"
  by (simp add: links_def rels_merge_rels)

lemma merge_rels_links_all:
  assumes "x \<in> set xs" and "s \<in> set ss"
  shows "(s, T, x) \<in> set (links (merge_rels ss T xs g))"
proof (cases "(s, T, x) \<in> set (links g)")
  case True
  then show ?thesis by (simp add: links_merge_rels)
next
  case False
  with assms have "\<lparr>rel_src = s, rel_type = T, rel_dst = x, rel_props = []\<rparr>
      \<in> set (missing_rels ss T xs g)"
    by (auto simp: missing_rels_member)
  then have "(s, T, x) \<in> (\<lambda>r. (rel_src r, rel_type r, rel_dst r)) ` set (missing_rels ss T xs g)"
    by force
  then show ?thesis by (simp add: links_merge_rels)
qed

lemma missing_rels_none:
  assumes "\<forall>x\<in>set xs. \<forall>s\<in>set ss. (s, T, x) \<in> set (links g)"
  shows "missing_rels ss T xs g = []"
proof (rule ccontr)
  assume "missing_rels ss T xs g \<noteq> []"
  then obtain r where "r \<in> set (missing_rels ss T xs g)"
    by (cases "missing_rels ss T xs g") auto
  with assms show False
    by (auto simp: missing_rels_member)
qed

lemma missing_rels_no_sessions [simp]: "missing_rels [] T xs g = []"
  by (simp add: missing_rels_def)

lemma set_rels_no_sessions: "rels (set_rels [] T xs kvs g) = rels g"
  by (simp add: set_rels_def rel_matches_def)

lemma id_key: "''id'' \<in> set key_names"
  by (simp add: key_names_def)

lemma session_nodes_merge_node:
  assumes "k \<in> set key_names" and "L \<noteq> ''Session''"
  shows "session_nodes (merge_node L k v g) sid = session_nodes g sid"
  using assms by (simp add: session_nodes_def match_merge_node [OF assms(1) id_key])

lemma match_set_nodes:
  assumes "fst ` set kvs \<inter> set key_names = {}" and "k \<in> set key_names"
  shows "match_nodes (set_nodes xs kvs g) L k v = match_nodes g L k v"
  using assms by (simp add: match_nodes_shape shape_set_nodes)

lemma session_nodes_set_nodes:
  assumes "fst ` set kvs \<inter> set key_names = {}"
  shows "session_nodes (set_nodes xs kvs g) sid = session_nodes g sid"
  using assms by (simp add: session_nodes_def match_set_nodes id_key)

text \<open>The parts of an upsert, named.\<close>

lemma upsert_unfold:
  "upsert L k v ns sid T rs g =
     tick (set_rels (session_nodes (set_nodes (match_nodes (merge_node L k (PStr v) g) L k (PStr v)) ns
                       (merge_node L k (PStr v) g)) sid)
             T (match_nodes (merge_node L k (PStr v) g) L k (PStr v)) rs
            (merge_rels (session_nodes (set_nodes (match_nodes (merge_node L k (PStr v) g) L k (PStr v)) ns
                       (merge_node L k (PStr v) g)) sid)
               T (match_nodes (merge_node L k (PStr v) g) L k (PStr v))
               (set_nodes (match_nodes (merge_node L k (PStr v) g) L k (PStr v)) ns
                  (merge_node L k (PStr v) g))))"
  by (simp add: upsert_def Let_def session_nodes_def)


lemma upsert_shape:
  assumes "fst ` set ns \<inter> set key_names = {}"
  shows "shape (upsert L k v ns sid T rs g) = shape (merge_node L k (PStr v) g)"
  by (simp add: upsert_unfold shape_set_nodes [OF assms])

lemma upsert_match:
  assumes "fst ` set ns \<inter> set key_names = {}" and "k' \<in> set key_names"
  shows "match_nodes (upsert L k v ns sid T rs g) L' k' v' =
           match_nodes (merge_node L k (PStr v) g) L' k' v'"
  using assms by (simp add: match_nodes_shape upsert_shape)

lemma upsert_session_nodes:
  assumes "fst ` set ns \<inter> set key_names = {}" and "k \<in> set key_names" and "L \<noteq> ''Session''"
  shows "session_nodes (upsert L k v ns sid T rs g) sid' = session_nodes g sid'"
  using assms
  by (simp add: session_nodes_def upsert_match id_key match_merge_node [OF assms(2) id_key])

lemma upsert_rels:
  assumes "fst ` set ns \<inter> set key_names = {}" and "k \<in> set key_names" and "L \<noteq> ''Session''"
  shows "rels (upsert L k v ns sid T rs g) =
     map (\<lambda>r. if rel_matches r (session_nodes g sid) T
                     (match_nodes (merge_node L k (PStr v) g) L k (PStr v))
               then r\<lparr>rel_props := set_props rs (rel_props r)\<rparr> else r)
       (rels g @ missing_rels (session_nodes g sid) T
                   (match_nodes (merge_node L k (PStr v) g) L k (PStr v)) g)"
proof -
  let ?g1 = "merge_node L k (PStr v) g"
  let ?xs = "match_nodes ?g1 L k (PStr v)"
  let ?g2 = "set_nodes ?xs ns ?g1"
  have ss: "session_nodes ?g2 sid = session_nodes g sid"
    by (simp add: session_nodes_set_nodes [OF assms(1)] session_nodes_merge_node [OF assms(2,3)])
  have m: "missing_rels (session_nodes g sid) T ?xs ?g2 = missing_rels (session_nodes g sid) T ?xs g"
    by (simp add: missing_rels_def)
  show ?thesis
    by (simp add: upsert_unfold ss set_rels_def rels_merge_rels m)
qed

lemma upsert_links:
  assumes "fst ` set ns \<inter> set key_names = {}" and "k \<in> set key_names" and "L \<noteq> ''Session''"
  shows "links (upsert L k v ns sid T rs g) =
     links g @ map (\<lambda>r. (rel_src r, rel_type r, rel_dst r))
       (missing_rels (session_nodes g sid) T
          (match_nodes (merge_node L k (PStr v) g) L k (PStr v)) g)"
  unfolding links_def upsert_rels [OF assms]
  by (simp add: o_def rel_matches_def cong: map_cong)

lemma grows_shape_links:
  assumes "grows g g1" and "shape g' = shape g1" and "\<exists>new. links g' = links g1 @ new"
  shows "grows g g'"
proof -
  have m: "\<And>L k v. k \<in> set key_names \<Longrightarrow> match_nodes g' L k v = match_nodes g1 L k v"
    by (simp add: match_nodes_shape assms(2))
  have s: "\<And>sid. session_nodes g' sid = session_nodes g1 sid"
    by (simp add: session_nodes_shape assms(2))
  have "grows g1 g'"
    unfolding grows_def using assms(2,3) m s by auto
  with assms(1) show ?thesis
    by (rule grows_trans)
qed

lemma upsert_grows:
  assumes "fst ` set ns \<inter> set key_names = {}" and "k \<in> set key_names" and "L \<noteq> ''Session''"
  shows "grows g (upsert L k v ns sid T rs g)"
proof (rule grows_shape_links)
  show "grows g (merge_node L k (PStr v) g)"
    using assms(2,3) by (rule grows_merge_node)
  show "shape (upsert L k v ns sid T rs g) = shape (merge_node L k (PStr v) g)"
    using assms(1) by (rule upsert_shape)
  show "\<exists>new. links (upsert L k v ns sid T rs g) = links (merge_node L k (PStr v) g) @ new"
    by (simp add: upsert_links [OF assms])
qed

lemma upsert_present:
  assumes "fst ` set ns \<inter> set key_names = {}" and "k \<in> set key_names"
  shows "match_nodes (upsert L k v ns sid T rs g) L k (PStr v) \<noteq> []"
  by (simp add: upsert_match [OF assms] match_merge_node_self [OF assms(2)])

lemma name_key: "''name'' \<in> set key_names" and description_key: "''description'' \<in> set key_names"
  by (simp_all add: key_names_def)

subsection \<open>linked\<close>

lemma upsert_linked:
  assumes "fst ` set ns \<inter> set key_names = {}" and "k \<in> set key_names" and "L \<noteq> ''Session''"
  shows "linked (upsert L k v ns sid T rs g) sid T L k v"
proof -
  let ?xs = "match_nodes (merge_node L k (PStr v) g) L k (PStr v)"
  let ?ss = "session_nodes g sid"
  have l: "links (upsert L k v ns sid T rs g) = links (merge_rels ?ss T ?xs g)"
    by (simp add: upsert_links [OF assms] links_merge_rels)
  show ?thesis
    unfolding linked_def
    by (simp add: upsert_match [OF assms(1,2)] upsert_session_nodes [OF assms] l
        match_merge_node_self [OF assms(2)] list_all_iff merge_rels_links_all)
qed

lemma linked_grows:
  assumes "linked g sid T L k v" and "grows g g'" and "k \<in> set key_names"
  shows "linked g' sid T L k v"
proof -
  from assms(1) have ne: "match_nodes g L k (PStr v) \<noteq> []"
    by (simp add: linked_def)
  with assms(2,3) have m: "match_nodes g' L k (PStr v) = match_nodes g L k (PStr v)"
    unfolding grows_def by blast
  from assms(2) have s: "session_nodes g' sid = session_nodes g sid"
    unfolding grows_def by blast
  from assms(2) obtain new where "links g' = links g @ new"
    unfolding grows_def by blast
  with assms(1) show ?thesis
    unfolding linked_def by (auto simp: m s list_all_iff)
qed

lemma upsert_noop:
  assumes "fst ` set ns \<inter> set key_names = {}" and "k \<in> set key_names" and "L \<noteq> ''Session''"
      and "linked g sid T L k v"
  shows "shape (upsert L k v ns sid T rs g) = shape g \<and> links (upsert L k v ns sid T rs g) = links g"
proof -
  from assms(4) have ne: "match_nodes g L k (PStr v) \<noteq> []"
    by (simp add: linked_def)
  then have g1: "merge_node L k (PStr v) g = g"
    by (simp add: merge_node_def)
  from assms(4) have "missing_rels (session_nodes g sid) T (match_nodes g L k (PStr v)) g = []"
    by (intro missing_rels_none) (auto simp: linked_def list_all_iff)
  then show ?thesis
    by (simp add: upsert_shape [OF assms(1)] upsert_links [OF assms(1-3)] g1)
qed

subsection \<open>link_dimension\<close>

lemma link_dimension_unfold:
  "link_dimension theme dimension g =
     tick (merge_rels (match_nodes (merge_node ''Theme'' ''name'' (PStr theme) g) ''Theme'' ''name'' (PStr theme))
             ''RELATES_TO''
             (match_nodes (merge_node ''ScoringDimension'' ''name'' (PStr dimension)
                             (merge_node ''Theme'' ''name'' (PStr theme) g))
                ''ScoringDimension'' ''name'' (PStr dimension))
             (merge_node ''ScoringDimension'' ''name'' (PStr dimension)
                (merge_node ''Theme'' ''name'' (PStr theme) g)))"
  by (simp add: link_dimension_def Let_def)

lemma link_dimension_shape:
  "shape (link_dimension theme dimension g) =
     shape (merge_node ''ScoringDimension'' ''name'' (PStr dimension)
              (merge_node ''Theme'' ''name'' (PStr theme) g))"
  by (simp add: link_dimension_unfold)

lemma link_dimension_rels:
  "\<exists>new. rels (link_dimension theme dimension g) = rels g @ new
         \<and> list_all (\<lambda>r. rel_type r = ''RELATES_TO'' \<and> rel_props r = []) new"
  by (auto simp: link_dimension_unfold rels_merge_rels list_all_iff dest: missing_rels_typed)

lemma link_dimension_grows: "grows g (link_dimension theme dimension g)"
proof (rule grows_shape_links)
  let ?g1 = "merge_node ''Theme'' ''name'' (PStr theme) g"
  let ?g2 = "merge_node ''ScoringDimension'' ''name'' (PStr dimension) ?g1"
  have "grows g ?g1"
    by (rule grows_merge_node [OF name_key]) simp
  moreover have "grows ?g1 ?g2"
    by (rule grows_merge_node [OF name_key]) simp
  ultimately show "grows g ?g2"
    by (rule grows_trans)
  show "shape (link_dimension theme dimension g) = shape ?g2"
    by (rule link_dimension_shape)
  show "\<exists>new. links (link_dimension theme dimension g) = links ?g2 @ new"
    by (simp add: link_dimension_unfold links_merge_rels)
qed

lemma link_dimension_match:
  "k \<in> set key_names \<Longrightarrow>
   match_nodes (link_dimension theme dimension g) L k v =
     match_nodes (merge_node ''ScoringDimension'' ''name'' (PStr dimension)
                    (merge_node ''Theme'' ''name'' (PStr theme) g)) L k v"
  by (simp add: match_nodes_shape link_dimension_shape)

lemma link_dimension_establishes: "dim_linked (link_dimension theme dimension g) theme dimension"
proof -
  let ?g1 = "merge_node ''Theme'' ''name'' (PStr theme) g"
  let ?g2 = "merge_node ''ScoringDimension'' ''name'' (PStr dimension) ?g1"
  let ?ts = "match_nodes ?g1 ''Theme'' ''name'' (PStr theme)"
  let ?ds = "match_nodes ?g2 ''ScoringDimension'' ''name'' (PStr dimension)"
  have t1: "?ts \<noteq> []"
    by (rule match_merge_node_self [OF name_key])
  have t2: "match_nodes ?g2 ''Theme'' ''name'' (PStr theme) = ?ts"
    by (simp add: match_merge_node [OF name_key name_key])
  have d: "?ds \<noteq> []"
    by (rule match_merge_node_self [OF name_key])
  have l: "links (link_dimension theme dimension g) = links (merge_rels ?ts ''RELATES_TO'' ?ds ?g2)"
    by (simp add: link_dimension_unfold)
  show ?thesis
    unfolding dim_linked_def
    by (simp add: link_dimension_match name_key t1 t2 d l list_all_iff merge_rels_links_all)
qed

lemma dim_linked_grows:
  assumes "dim_linked g theme dimension" and "grows g g'"
  shows "dim_linked g' theme dimension"
proof -
  from assms have m1: "match_nodes g' ''Theme'' ''name'' (PStr theme)
                      = match_nodes g ''Theme'' ''name'' (PStr theme)"
    and m2: "match_nodes g' ''ScoringDimension'' ''name'' (PStr dimension)
            = match_nodes g ''ScoringDimension'' ''name'' (PStr dimension)"
    unfolding grows_def dim_linked_def using name_key by blast+
  from assms(2) obtain new where "links g' = links g @ new"
    unfolding grows_def by blast
  with assms(1) show ?thesis
    unfolding dim_linked_def by (auto simp: m1 m2 list_all_iff)
qed

lemma link_dimension_noop:
  assumes "dim_linked g theme dimension"
  shows "shape (link_dimension theme dimension g) = shape g
       \<and> links (link_dimension theme dimension g) = links g"
proof -
  from assms have g1: "merge_node ''Theme'' ''name'' (PStr theme) g = g"
    and g2: "merge_node ''ScoringDimension'' ''name'' (PStr dimension) g = g"
    by (simp_all add: merge_node_def dim_linked_def)
  from assms have "missing_rels (match_nodes g ''Theme'' ''name'' (PStr theme)) ''RELATES_TO''
      (match_nodes g ''ScoringDimension'' ''name'' (PStr dimension)) g = []"
    by (intro missing_rels_none) (auto simp: dim_linked_def list_all_iff)
  then show ?thesis
    by (simp add: link_dimension_unfold g1 g2 links_merge_rels)
qed

lemma keyview_quote_node [simp]: "keyview (quote_node q now) = quote_view"
  by (simp add: keyview_def quote_node_def quote_view_def)

lemma create_quote_nodes: "nodes (create_quote q now s g) = nodes g @ [quote_node q now]"
  by (simp add: create_quote_def quote_node_def)

lemma create_quote_rels:
  "rels (create_quote q now s g) =
     rels g @ [\<lparr>rel_src = s, rel_type = ''QUOTED'', rel_dst = length (nodes g), rel_props = []\<rparr>]"
  by (simp add: create_quote_def)

lemma create_quote_clock [simp]: "clock (create_quote q now s g) = clock g"
  by (simp add: create_quote_def)

lemma fold_create_quote_nodes:
  "nodes (fold (create_quote q now) ss g) = nodes g @ replicate (length ss) (quote_node q now)"
proof (induction ss arbitrary: g)
  case Nil
  then show ?case by simp
next
  case (Cons s ss)
  then show ?case
    by (simp add: create_quote_nodes replicate_app_Cons_same)
qed

lemma fold_create_quote_rels:
  "\<exists>new. rels (fold (create_quote q now) ss g) = rels g @ new \<and> length new = length ss
         \<and> list_all (\<lambda>r. rel_type r = ''QUOTED'' \<and> rel_props r = []) new"
proof (induction ss arbitrary: g)
  case Nil
  then show ?case by simp
next
  case (Cons s ss)
  from Cons.IH [of "create_quote q now s g"] obtain new where
    n: "rels (fold (create_quote q now) ss (create_quote q now s g)) = rels (create_quote q now s g) @ new"
      "length new = length ss" "list_all (\<lambda>r. rel_type r = ''QUOTED'' \<and> rel_props r = []) new"
    by blast
  let ?r = "\<lparr>rel_src = s, rel_type = ''QUOTED'', rel_dst = length (nodes g), rel_props = []\<rparr>"
  have "rels (fold (create_quote q now) (s # ss) g) = rels g @ (?r # new)"
    using n(1) by (simp add: create_quote_rels)
  moreover have "length (?r # new) = length (s # ss)"
    using n(2) by simp
  moreover have "list_all (\<lambda>r. rel_type r = ''QUOTED'' \<and> rel_props r = []) (?r # new)"
    using n(3) by simp
  ultimately show ?case
    by blast
qed

lemma fold_create_quote_clock [simp]: "clock (fold (create_quote q now) ss g) = clock g"
  by (induction ss arbitrary: g) simp_all

lemma sync_quote_nodes:
  "nodes (sync_quote sid q g) =
     nodes g @ replicate (length (session_nodes g sid)) (quote_node q (clock g))"
  by (simp add: sync_quote_def fold_create_quote_nodes session_nodes_def)

lemma sync_quote_rels:
  "\<exists>new. rels (sync_quote sid q g) = rels g @ new \<and> length new = length (session_nodes g sid)
         \<and> list_all (\<lambda>r. rel_type r = ''QUOTED'' \<and> rel_props r = []) new"
  using fold_create_quote_rels [of q "clock g" "session_nodes g sid" g]
  by (simp add: sync_quote_def session_nodes_def)

lemma sync_quote_shape:
  "shape (sync_quote sid q g) = shape g @ replicate (length (session_nodes g sid)) quote_view"
  by (simp add: shape_def sync_quote_nodes)

lemma sync_quote_links:
  "\<exists>new. links (sync_quote sid q g) = links g @ new \<and> length new = length (session_nodes g sid)
         \<and> list_all (\<lambda>l. fst (snd l) = ''QUOTED'') new"
proof -
  from sync_quote_rels [of sid q g] obtain new where
    n: "rels (sync_quote sid q g) = rels g @ new" "length new = length (session_nodes g sid)"
       "list_all (\<lambda>r. rel_type r = ''QUOTED'' \<and> rel_props r = []) new"
    by blast
  let ?ql = "map (\<lambda>r. (rel_src r, rel_type r, rel_dst r)) new"
  have "links (sync_quote sid q g) = links g @ ?ql"
    by (simp add: links_def n(1))
  moreover have "length ?ql = length (session_nodes g sid)"
    by (simp add: n(2))
  moreover have "list_all (\<lambda>l. fst (snd l) = ''QUOTED'') ?ql"
    using n(3) by (simp add: list_all_iff)
  ultimately show ?thesis
    by blast
qed

lemma quote_view_no_match [simp]: "\<not> view_matches quote_view L k v"
  by (simp add: view_matches_def quote_view_def)

lemma match_views_quotes [simp]: "match_views (replicate n quote_view) L k v = []"
  by (simp add: match_views_def filter_empty_conv)

lemma match_sync_quote:
  "k \<in> set key_names \<Longrightarrow> match_nodes (sync_quote sid q g) L k v = match_nodes g L k v"
  by (simp add: match_nodes_shape sync_quote_shape match_views_append)

lemma session_nodes_sync_quote: "session_nodes (sync_quote sid q g) sid' = session_nodes g sid'"
  by (simp add: session_nodes_def match_sync_quote id_key)

lemma sync_quote_grows: "grows g (sync_quote sid q g)"
proof -
  have l: "\<exists>new. links (sync_quote sid q g) = links g @ new"
    using sync_quote_links [of sid q g] by blast
  show ?thesis
    unfolding grows_def
    using l by (auto simp: sync_quote_shape match_sync_quote session_nodes_sync_quote)
qed

subsection \<open>Counting\<close>

lemma count_nodes_shape: "count_nodes g L = length (filter (\<lambda>w. L \<in> set (fst w)) (shape g))"
proof -
  have "filter (\<lambda>w. L \<in> set (fst w)) (map keyview (nodes g))
        = map keyview (filter (\<lambda>n. L \<in> set (labels n)) (nodes g))"
    by (simp add: filter_map o_def keyview_def)
  then show ?thesis
    by (simp add: count_nodes_def shape_def)
qed

lemma count_rels_links: "count_rels g T = length (filter (\<lambda>l. fst (snd l) = T) (links g))"
proof -
  have "filter (\<lambda>l. fst (snd l) = T) (map (\<lambda>r. (rel_src r, rel_type r, rel_dst r)) (rels g))
        = map (\<lambda>r. (rel_src r, rel_type r, rel_dst r)) (filter (\<lambda>r. rel_type r = T) (rels g))"
    by (simp add: filter_map o_def)
  then show ?thesis
    by (simp add: count_rels_def links_def)
qed

lemma count_nodes_sync_quote:
  "count_nodes (sync_quote sid q g) ''Quote'' = count_nodes g ''Quote'' + length (session_nodes g sid)"
  by (simp add: count_nodes_shape sync_quote_shape quote_view_def)

lemma count_rels_sync_quote:
  "count_rels (sync_quote sid q g) ''QUOTED'' = count_rels g ''QUOTED'' + length (session_nodes g sid)"
proof -
  from sync_quote_links [of sid q g] obtain new where
    n: "links (sync_quote sid q g) = links g @ new" "length new = length (session_nodes g sid)"
       "list_all (\<lambda>l. fst (snd l) = ''QUOTED'') new"
    by blast
  from n(3) have "filter (\<lambda>l. fst (snd l) = ''QUOTED'') new = new"
    by (simp add: list_all_iff)
  with n(1,2) show ?thesis
    by (simp add: count_rels_links)
qed

subsection \<open>Folds\<close>

lemma fold_invariant:
  assumes "P g" and "\<And>x g. x \<in> set xs \<Longrightarrow> P g \<Longrightarrow> P (f x g)"
  shows "P (fold f xs g)"
  using assms by (induction xs arbitrary: g) simp_all

lemma fold_establish:
  assumes est: "\<And>x g. x \<in> set xs \<Longrightarrow> C x (f x g)"
      and pres: "\<And>x y g. C x g \<Longrightarrow> C x (f y g)"
  shows "\<forall>x\<in>set xs. C x (fold f xs g)"
  using est
proof (induction xs arbitrary: g)
  case Nil
  then show ?case by simp
next
  case (Cons a xs)
  have "C a (f a g)"
    by (rule Cons.prems) simp
  then have a: "C a (fold f xs (f a g))"
    by (rule fold_invariant) (rule pres)
  have "\<forall>x\<in>set xs. C x (fold f xs (f a g))"
    by (rule Cons.IH) (simp add: Cons.prems)
  with a show ?case
    by simp
qed

lemma grows_fold:
  assumes "\<And>x g. grows g (f x g)"
  shows "grows g (fold f xs g)"
proof (induction xs arbitrary: g)
  case Nil
  then show ?case by (simp add: grows_refl)
next
  case (Cons a xs)
  have "grows g (f a g)"
    by (rule assms)
  moreover have "grows (f a g) (fold f xs (f a g))"
    by (rule Cons.IH)
  ultimately show ?case
    by (simp add: grows_trans)
qed

subsection \<open>Graphs with the same shape and links\<close>

lemma linked_cong:
  assumes "shape g' = shape g" and "links g' = links g" and "k \<in> set key_names"
  shows "linked g' sid T L k v = linked g sid T L k v"
  using assms by (simp add: linked_def match_nodes_shape session_nodes_shape)

lemma dim_linked_cong:
  assumes "shape g' = shape g" and "links g' = links g"
  shows "dim_linked g' theme dimension = dim_linked g theme dimension"
  using assms by (simp add: dim_linked_def match_nodes_shape name_key)

subsection \<open>The statements of the synchronizer\<close>

lemma theme_sets: "fst ` set [(''category'', a), (''updatedAt'', b)] \<inter> set key_names = {}"
  and tool_sets: "fst ` set [(''updatedAt'', b)] \<inter> set key_names = {}"
  and pain_point_sets:
    "fst ` set [(''severity'', a), (''area'', c), (''updatedAt'', b)] \<inter> set key_names = {}"
  and goal_sets:
    "fst ` set [(''timeframe'', a), (''relatedToAi'', c), (''updatedAt'', b)] \<inter> set key_names = {}"
  by (simp_all add: key_names_def)

lemma sync_theme_grows: "grows g (sync_theme sid theme g)"
  unfolding sync_theme_def by (rule upsert_grows [OF theme_sets name_key]) simp

lemma sync_tool_grows: "grows g (sync_tool sid tool g)"
  unfolding sync_tool_def by (rule upsert_grows [OF tool_sets name_key]) simp

lemma sync_pain_point_grows: "grows g (sync_pain_point sid pp g)"
  unfolding sync_pain_point_def by (rule upsert_grows [OF pain_point_sets description_key]) simp

lemma sync_goal_grows: "grows g (sync_goal sid goal g)"
  unfolding sync_goal_def by (rule upsert_grows [OF goal_sets description_key]) simp

lemma sync_theme_with_dimensions_grows: "grows g (sync_theme_with_dimensions sid theme g)"
  unfolding sync_theme_with_dimensions_def
  by (rule grows_trans [OF sync_theme_grows]) (rule grows_fold, rule link_dimension_grows)

lemma sync_grows: "grows g (sync_extraction_to_graph e g)"
  unfolding sync_extraction_to_graph_def Let_def
  by (intro grows_trans [OF grows_fold grows_trans [OF grows_fold grows_trans
        [OF grows_fold grows_trans [OF grows_fold grows_fold]]]]
      sync_theme_with_dimensions_grows sync_tool_grows sync_pain_point_grows sync_goal_grows
      sync_quote_grows)

lemma sync_theme_linked:
  "linked (sync_theme sid theme g) sid ''SURFACED'' ''Theme'' ''name'' (theme_name theme)"
  unfolding sync_theme_def by (rule upsert_linked [OF theme_sets name_key]) simp

lemma sync_tool_linked:
  "linked (sync_tool sid tool g) sid ''USES_TOOL'' ''Tool'' ''name'' (tool_name tool)"
  unfolding sync_tool_def by (rule upsert_linked [OF tool_sets name_key]) simp

lemma sync_pain_point_linked:
  "linked (sync_pain_point sid pp g) sid ''HAS_PAIN_POINT'' ''PainPoint'' ''description''
     (pp_description pp)"
  unfolding sync_pain_point_def by (rule upsert_linked [OF pain_point_sets description_key]) simp

lemma sync_goal_linked:
  "linked (sync_goal sid goal g) sid ''HAS_GOAL'' ''Goal'' ''description'' (goal_description goal)"
  unfolding sync_goal_def by (rule upsert_linked [OF goal_sets description_key]) simp

lemma sync_theme_noop:
  assumes "linked g sid ''SURFACED'' ''Theme'' ''name'' (theme_name theme)"
  shows "shape (sync_theme sid theme g) = shape g \<and> links (sync_theme sid theme g) = links g"
  unfolding sync_theme_def by (rule upsert_noop [OF theme_sets name_key _ assms]) simp

lemma sync_tool_noop:
  assumes "linked g sid ''USES_TOOL'' ''Tool'' ''name'' (tool_name tool)"
  shows "shape (sync_tool sid tool g) = shape g \<and> links (sync_tool sid tool g) = links g"
  unfolding sync_tool_def by (rule upsert_noop [OF tool_sets name_key _ assms]) simp

lemma sync_pain_point_noop:
  assumes "linked g sid ''HAS_PAIN_POINT'' ''PainPoint'' ''description'' (pp_description pp)"
  shows "shape (sync_pain_point sid pp g) = shape g \<and> links (sync_pain_point sid pp g) = links g"
  unfolding sync_pain_point_def by (rule upsert_noop [OF pain_point_sets description_key _ assms]) simp

lemma sync_goal_noop:
  assumes "linked g sid ''HAS_GOAL'' ''Goal'' ''description'' (goal_description goal)"
  shows "shape (sync_goal sid goal g) = shape g \<and> links (sync_goal sid goal g) = links g"
  unfolding sync_goal_def by (rule upsert_noop [OF goal_sets description_key _ assms]) simp

lemma sync_split:
  "sync_extraction_to_graph e g = fold (sync_quote (session_id e)) (quotes e) (sync_entities e g)"
  by (simp add: sync_extraction_to_graph_def sync_entities_def Let_def)

lemma theme_covered_grows:
  "theme_covered g sid theme \<Longrightarrow> grows g g' \<Longrightarrow> theme_covered g' sid theme"
  unfolding theme_covered_def
  by (auto simp: list_all_iff intro: linked_grows [OF _ _ name_key] dim_linked_grows)

lemma theme_covered_cong:
  "shape g' = shape g \<Longrightarrow> links g' = links g \<Longrightarrow> theme_covered g' sid theme = theme_covered g sid theme"
proof -
  assume s: "shape g' = shape g" and l: "links g' = links g"
  have 1: "linked g' sid ''SURFACED'' ''Theme'' ''name'' (theme_name theme)
         = linked g sid ''SURFACED'' ''Theme'' ''name'' (theme_name theme)"
    by (rule linked_cong [OF s l name_key])
  have 2: "\<And>d. dim_linked g' (theme_name theme) d = dim_linked g (theme_name theme) d"
    by (rule dim_linked_cong [OF s l])
  show ?thesis
    unfolding theme_covered_def 1 2 ..
qed

lemma covered_grows:
  assumes "covered g e" and "grows g g'"
  shows "covered g' e"
  using assms unfolding covered_def
  by (auto simp: list_all_iff
      intro: theme_covered_grows linked_grows [OF _ _ name_key] linked_grows [OF _ _ description_key])

lemma sync_theme_with_dimensions_covers:
  "theme_covered (sync_theme_with_dimensions sid theme g) sid theme"
proof -
  let ?g1 = "sync_theme sid theme g"
  let ?g2 = "fold (link_dimension (theme_name theme)) (related_dimensions theme) ?g1"
  have "grows ?g1 ?g2"
    by (rule grows_fold) (rule link_dimension_grows)
  with sync_theme_linked [of sid theme g]
  have l: "linked ?g2 sid ''SURFACED'' ''Theme'' ''name'' (theme_name theme)"
    by (rule linked_grows [OF _ _ name_key])
  have "\<forall>d\<in>set (related_dimensions theme). dim_linked ?g2 (theme_name theme) d"
    by (rule fold_establish)
       (auto intro: link_dimension_establishes dim_linked_grows link_dimension_grows)
  with l show ?thesis
    by (simp add: theme_covered_def sync_theme_with_dimensions_def list_all_iff)
qed

lemma sync_entities_grows: "grows g (sync_entities e g)"
  unfolding sync_entities_def
  by (intro grows_trans [OF grows_fold grows_trans [OF grows_fold grows_trans
        [OF grows_fold grows_fold]]]
      sync_theme_with_dimensions_grows sync_tool_grows sync_pain_point_grows sync_goal_grows)

lemma sync_entities_covers: "covered (sync_entities e g) e"
proof -
  let ?sid = "session_id e"
  let ?g1 = "fold (sync_theme_with_dimensions ?sid) (themes e) g"
  let ?g2 = "fold (sync_tool ?sid) (tools e) ?g1"
  let ?g3 = "fold (sync_pain_point ?sid) (pain_points e) ?g2"
  let ?g4 = "fold (sync_goal ?sid) (goals e) ?g3"
  have g12: "grows ?g1 ?g2" by (rule grows_fold) (rule sync_tool_grows)
  have g23: "grows ?g2 ?g3" by (rule grows_fold) (rule sync_pain_point_grows)
  have g34: "grows ?g3 ?g4" by (rule grows_fold) (rule sync_goal_grows)
  have g14: "grows ?g1 ?g4" using g12 g23 g34 by (blast intro: grows_trans)
  have g24: "grows ?g2 ?g4" using g23 g34 by (blast intro: grows_trans)
  have "\<forall>th\<in>set (themes e). theme_covered ?g1 ?sid th"
    by (rule fold_establish)
       (auto intro: sync_theme_with_dimensions_covers theme_covered_grows
          sync_theme_with_dimensions_grows)
  then have a: "\<forall>th\<in>set (themes e). theme_covered ?g4 ?sid th"
    using g14 by (blast intro: theme_covered_grows)
  have "\<forall>t\<in>set (tools e). linked ?g2 ?sid ''USES_TOOL'' ''Tool'' ''name'' (tool_name t)"
    by (rule fold_establish)
       (auto intro: sync_tool_linked linked_grows [OF _ _ name_key] sync_tool_grows)
  then have b: "\<forall>t\<in>set (tools e). linked ?g4 ?sid ''USES_TOOL'' ''Tool'' ''name'' (tool_name t)"
    using g24 by (blast intro: linked_grows [OF _ _ name_key])
  have "\<forall>p\<in>set (pain_points e).
          linked ?g3 ?sid ''HAS_PAIN_POINT'' ''PainPoint'' ''description'' (pp_description p)"
    by (rule fold_establish)
       (auto intro: sync_pain_point_linked linked_grows [OF _ _ description_key]
          sync_pain_point_grows)
  then have c: "\<forall>p\<in>set (pain_points e).
          linked ?g4 ?sid ''HAS_PAIN_POINT'' ''PainPoint'' ''description'' (pp_description p)"
    using g34 by (blast intro: linked_grows [OF _ _ description_key])
  have d: "\<forall>x\<in>set (goals e).
          linked ?g4 ?sid ''HAS_GOAL'' ''Goal'' ''description'' (goal_description x)"
    by (rule fold_establish)
       (auto intro: sync_goal_linked linked_grows [OF _ _ description_key] sync_goal_grows)
  from a b c d show ?thesis
    by (simp add: covered_def sync_entities_def list_all_iff)
qed

lemma sync_covers: "covered (sync_extraction_to_graph e g) e"
  unfolding sync_split
  by (rule covered_grows [OF sync_entities_covers]) (rule grows_fold, rule sync_quote_grows)

subsection \<open>A covered extraction adds no entity\<close>

lemma sync_theme_with_dimensions_noop:
  assumes "theme_covered g sid theme"
  shows "shape (sync_theme_with_dimensions sid theme g) = shape g
       \<and> links (sync_theme_with_dimensions sid theme g) = links g"
proof -
  let ?g1 = "sync_theme sid theme g"
  from assms have s: "shape ?g1 = shape g \<and> links ?g1 = links g"
    by (intro sync_theme_noop) (simp add: theme_covered_def)
  have "shape (fold (link_dimension (theme_name theme)) (related_dimensions theme) ?g1) = shape g
      \<and> links (fold (link_dimension (theme_name theme)) (related_dimensions theme) ?g1) = links g"
  proof (rule fold_invariant [where P = "\<lambda>h. shape h = shape g \<and> links h = links g"])
    show "shape ?g1 = shape g \<and> links ?g1 = links g"
      by (rule s)
  next
    fix d h
    assume d: "d \<in> set (related_dimensions theme)" and h: "shape h = shape g \<and> links h = links g"
    from assms d have "dim_linked g (theme_name theme) d"
      by (simp add: theme_covered_def list_all_iff)
    with h have "dim_linked h (theme_name theme) d"
      using dim_linked_cong [of h g "theme_name theme" d] by simp
    from link_dimension_noop [OF this] h
    show "shape (link_dimension (theme_name theme) d h) = shape g
        \<and> links (link_dimension (theme_name theme) d h) = links g"
      by simp
  qed
  then show ?thesis
    by (simp add: sync_theme_with_dimensions_def)
qed

lemma fold_noop:
  assumes "\<And>x h. x \<in> set xs \<Longrightarrow> shape h = shape g \<and> links h = links g \<Longrightarrow>
             shape (f x h) = shape g \<and> links (f x h) = links g"
      and "shape g0 = shape g \<and> links g0 = links g"
  shows "shape (fold f xs g0) = shape g \<and> links (fold f xs g0) = links g"
  by (rule fold_invariant [where P = "\<lambda>h. shape h = shape g \<and> links h = links g"])
     (use assms in auto)

lemma sync_entities_noop:
  assumes "covered g e"
  shows "shape (sync_entities e g) = shape g \<and> links (sync_entities e g) = links g"
proof -
  let ?sid = "session_id e"
  let ?g1 = "fold (sync_theme_with_dimensions ?sid) (themes e) g"
  let ?g2 = "fold (sync_tool ?sid) (tools e) ?g1"
  let ?g3 = "fold (sync_pain_point ?sid) (pain_points e) ?g2"
  let ?g4 = "fold (sync_goal ?sid) (goals e) ?g3"
  have 1: "shape ?g1 = shape g \<and> links ?g1 = links g"
  proof (rule fold_noop)
    fix th h
    assume th: "th \<in> set (themes e)" and h: "shape h = shape g \<and> links h = links g"
    from assms th have "theme_covered g ?sid th"
      by (simp add: covered_def list_all_iff)
    with h have "theme_covered h ?sid th"
      using theme_covered_cong [of h g ?sid th] by simp
    from sync_theme_with_dimensions_noop [OF this] h
    show "shape (sync_theme_with_dimensions ?sid th h) = shape g
        \<and> links (sync_theme_with_dimensions ?sid th h) = links g"
      by simp
  qed simp
  have 2: "shape ?g2 = shape g \<and> links ?g2 = links g"
  proof (rule fold_noop)
    fix t h
    assume t: "t \<in> set (tools e)" and h: "shape h = shape g \<and> links h = links g"
    from assms t have "linked g ?sid ''USES_TOOL'' ''Tool'' ''name'' (tool_name t)"
      by (simp add: covered_def list_all_iff)
    with h have "linked h ?sid ''USES_TOOL'' ''Tool'' ''name'' (tool_name t)"
      using linked_cong [of h g, OF _ _ name_key] by simp
    from sync_tool_noop [OF this] h
    show "shape (sync_tool ?sid t h) = shape g \<and> links (sync_tool ?sid t h) = links g"
      by simp
  qed (rule 1)
  have 3: "shape ?g3 = shape g \<and> links ?g3 = links g"
  proof (rule fold_noop)
    fix p h
    assume p: "p \<in> set (pain_points e)" and h: "shape h = shape g \<and> links h = links g"
    from assms p have "linked g ?sid ''HAS_PAIN_POINT'' ''PainPoint'' ''description'' (pp_description p)"
      by (simp add: covered_def list_all_iff)
    with h have "linked h ?sid ''HAS_PAIN_POINT'' ''PainPoint'' ''description'' (pp_description p)"
      using linked_cong [of h g, OF _ _ description_key] by simp
    from sync_pain_point_noop [OF this] h
    show "shape (sync_pain_point ?sid p h) = shape g \<and> links (sync_pain_point ?sid p h) = links g"
      by simp
  qed (rule 2)
  have 4: "shape ?g4 = shape g \<and> links ?g4 = links g"
  proof (rule fold_noop)
    fix x h
    assume x: "x \<in> set (goals e)" and h: "shape h = shape g \<and> links h = links g"
    from assms x have "linked g ?sid ''HAS_GOAL'' ''Goal'' ''description'' (goal_description x)"
      by (simp add: covered_def list_all_iff)
    with h have "linked h ?sid ''HAS_GOAL'' ''Goal'' ''description'' (goal_description x)"
      using linked_cong [of h g, OF _ _ description_key] by simp
    from sync_goal_noop [OF this] h
    show "shape (sync_goal ?sid x h) = shape g \<and> links (sync_goal ?sid x h) = links g"
      by simp
  qed (rule 3)
  then show ?thesis
    by (simp add: sync_entities_def)
qed

subsection \<open>An extraction whose session has no node\<close>

lemma upsert_rels_no_session:
  assumes "fst ` set ns \<inter> set key_names = {}" and "k \<in> set key_names" and "L \<noteq> ''Session''"
      and "session_nodes g sid = []"
  shows "rels (upsert L k v ns sid T rs g) = rels g"
  by (simp add: upsert_rels [OF assms(1-3)] assms(4) rel_matches_def)

lemma sync_quote_no_session:
  assumes "session_nodes g sid = []"
  shows "rels (sync_quote sid q g) = rels g" and "nodes (sync_quote sid q g) = nodes g"
  using assms sync_quote_rels [of sid q g] by (auto simp: sync_quote_nodes)

lemma extends_refl: "extends g g"
  by (simp add: extends_def)

lemma extends_same: "extends g h \<Longrightarrow> rels h' = rels h \<Longrightarrow> extends g h'"
  by (simp add: extends_def)

lemma extends_link_dimension:
  assumes "extends g h"
  shows "extends g (link_dimension theme dimension h)"
proof -
  from assms obtain dl where d: "rels h = rels g @ dl"
      "list_all (\<lambda>r. rel_type r = ''RELATES_TO'' \<and> rel_props r = []) dl"
    unfolding extends_def by blast
  from link_dimension_rels [of theme dimension h] obtain new where
    n: "rels (link_dimension theme dimension h) = rels h @ new"
       "list_all (\<lambda>r. rel_type r = ''RELATES_TO'' \<and> rel_props r = []) new"
    by blast
  from d n have "rels (link_dimension theme dimension h) = rels g @ (dl @ new)
      \<and> list_all (\<lambda>r. rel_type r = ''RELATES_TO'' \<and> rel_props r = []) (dl @ new)"
    by simp
  then show ?thesis
    unfolding extends_def by blast
qed

lemma session_nodes_grows: "grows g g' \<Longrightarrow> session_nodes g' sid = session_nodes g sid"
  by (simp add: grows_def)

lemma no_session_theme:
  assumes "session_nodes h sid = [] \<and> extends g h"
  shows "session_nodes (sync_theme_with_dimensions sid theme h) sid = []
       \<and> extends g (sync_theme_with_dimensions sid theme h)"
proof -
  have s: "session_nodes (sync_theme_with_dimensions sid theme h) sid = []"
    using assms session_nodes_grows [OF sync_theme_with_dimensions_grows, of sid theme h sid]
    by simp
  have r: "rels (sync_theme sid theme h) = rels h"
    unfolding sync_theme_def
    by (rule upsert_rels_no_session [OF theme_sets name_key]) (use assms in simp_all)
  with assms have "extends g (sync_theme sid theme h)"
    by (blast intro: extends_same)
  then have "extends g (fold (link_dimension (theme_name theme)) (related_dimensions theme)
                          (sync_theme sid theme h))"
    by (rule fold_invariant) (rule extends_link_dimension)
  with s show ?thesis
    by (simp add: sync_theme_with_dimensions_def)
qed

lemma no_session_tool:
  assumes "session_nodes h sid = [] \<and> extends g h"
  shows "session_nodes (sync_tool sid tool h) sid = [] \<and> extends g (sync_tool sid tool h)"
proof -
  have "rels (sync_tool sid tool h) = rels h"
    unfolding sync_tool_def
    by (rule upsert_rels_no_session [OF tool_sets name_key]) (use assms in simp_all)
  with assms show ?thesis
    using session_nodes_grows [OF sync_tool_grows, of sid tool h sid]
    by (auto intro: extends_same)
qed

lemma no_session_pain_point:
  assumes "session_nodes h sid = [] \<and> extends g h"
  shows "session_nodes (sync_pain_point sid pp h) sid = [] \<and> extends g (sync_pain_point sid pp h)"
proof -
  have "rels (sync_pain_point sid pp h) = rels h"
    unfolding sync_pain_point_def
    by (rule upsert_rels_no_session [OF pain_point_sets description_key]) (use assms in simp_all)
  with assms show ?thesis
    using session_nodes_grows [OF sync_pain_point_grows, of sid pp h sid]
    by (auto intro: extends_same)
qed

lemma no_session_goal:
  assumes "session_nodes h sid = [] \<and> extends g h"
  shows "session_nodes (sync_goal sid goal h) sid = [] \<and> extends g (sync_goal sid goal h)"
proof -
  have "rels (sync_goal sid goal h) = rels h"
    unfolding sync_goal_def
    by (rule upsert_rels_no_session [OF goal_sets description_key]) (use assms in simp_all)
  with assms show ?thesis
    using session_nodes_grows [OF sync_goal_grows, of sid goal h sid]
    by (auto intro: extends_same)
qed

lemma no_session_quote:
  assumes "session_nodes h sid = [] \<and> extends g h"
  shows "session_nodes (sync_quote sid q h) sid = [] \<and> extends g (sync_quote sid q h)"
  using assms sync_quote_no_session(1) [of h sid q]
  by (auto simp: session_nodes_sync_quote intro: extends_same)

lemma no_session_sync:
  assumes "session_nodes g (session_id e) = []"
  shows "session_nodes (sync_extraction_to_graph e g) (session_id e) = []
       \<and> extends g (sync_extraction_to_graph e g)"
proof -
  let ?sid = "session_id e"
  let ?P = "\<lambda>h. session_nodes h ?sid = [] \<and> extends g h"
  have 0: "?P g"
    using assms by (simp add: extends_refl)
  have 1: "?P (fold (sync_theme_with_dimensions ?sid) (themes e) g)"
    by (rule fold_invariant [where P = ?P, OF 0]) (rule no_session_theme)
  have 2: "?P (fold (sync_tool ?sid) (tools e) (fold (sync_theme_with_dimensions ?sid) (themes e) g))"
    by (rule fold_invariant [where P = ?P, OF 1]) (rule no_session_tool)
  have 3: "?P (fold (sync_pain_point ?sid) (pain_points e)
            (fold (sync_tool ?sid) (tools e) (fold (sync_theme_with_dimensions ?sid) (themes e) g)))"
    by (rule fold_invariant [where P = ?P, OF 2]) (rule no_session_pain_point)
  have 4: "?P (sync_entities e g)"
    unfolding sync_entities_def
    by (rule fold_invariant [where P = ?P, OF 3]) (rule no_session_goal)
  show ?thesis
    unfolding sync_split
    by (rule fold_invariant [where P = ?P, OF 4]) (rule no_session_quote)
qed

lemma extends_take_drop:
  "extends g h \<longleftrightarrow> take (length (rels g)) (rels h) = rels g
      \<and> list_all (\<lambda>r. rel_type r = ''RELATES_TO'' \<and> rel_props r = [])
           (drop (length (rels g)) (rels h))"
proof
  assume "extends g h"
  then show "take (length (rels g)) (rels h) = rels g
      \<and> list_all (\<lambda>r. rel_type r = ''RELATES_TO'' \<and> rel_props r = [])
           (drop (length (rels g)) (rels h))"
    by (auto simp: extends_def)
next
  assume a: "take (length (rels g)) (rels h) = rels g
      \<and> list_all (\<lambda>r. rel_type r = ''RELATES_TO'' \<and> rel_props r = [])
           (drop (length (rels g)) (rels h))"
  have "rels h = take (length (rels g)) (rels h) @ drop (length (rels g)) (rels h)"
    by simp
  with a have "rels h = rels g @ drop (length (rels g)) (rels h)"
    by simp
  with a show "extends g h"
    unfolding extends_def by blast
qed

lemma covered_present:
  assumes "covered g e"
  shows "list_all (\<lambda>x. match_nodes g ''Theme'' ''name'' (PStr (theme_name x)) \<noteq> []) (themes e)
       \<and> list_all (\<lambda>x. match_nodes g ''Tool'' ''name'' (PStr (tool_name x)) \<noteq> []) (tools e)
       \<and> list_all (\<lambda>x. match_nodes g ''PainPoint'' ''description'' (PStr (pp_description x)) \<noteq> [])
           (pain_points e)
       \<and> list_all (\<lambda>x. match_nodes g ''Goal'' ''description'' (PStr (goal_description x)) \<noteq> [])
           (goals e)"
  using assms by (simp add: covered_def theme_covered_def linked_def list_all_iff)

subsection \<open>Quote nodes and QUOTED relationships are only made by the quote statement\<close>

lemma quotes_kept_refl: "quotes_kept g g"
  by (simp add: quotes_kept_def)

lemma count_nodes_merge_node:
  "L \<noteq> Q \<Longrightarrow> count_nodes (merge_node L k v g) Q = count_nodes g Q"
  by (simp add: count_nodes_def merge_node_def)

lemma count_rels_typed:
  assumes "rels h = rels g @ new" and "list_all (\<lambda>r. rel_type r \<noteq> Q) new"
  shows "count_rels h Q = count_rels g Q"
proof -
  from assms(2) have "filter (\<lambda>r. rel_type r = Q) new = []"
    by (simp add: list_all_iff filter_empty_conv)
  with assms(1) show ?thesis
    by (simp add: count_rels_def)
qed

lemma upsert_quotes_kept:
  assumes "fst ` set ns \<inter> set key_names = {}" and "k \<in> set key_names" and "L \<noteq> ''Session''"
      and "L \<noteq> ''Quote''" and "T \<noteq> ''QUOTED''"
  shows "count_nodes (upsert L k v ns sid T rs g) ''Quote'' = count_nodes g ''Quote''"
    and "count_rels (upsert L k v ns sid T rs g) ''QUOTED'' = count_rels g ''QUOTED''"
proof -
  have "count_nodes (upsert L k v ns sid T rs g) ''Quote''
        = count_nodes (merge_node L k (PStr v) g) ''Quote''"
    by (simp add: count_nodes_shape upsert_shape [OF assms(1)])
  then show "count_nodes (upsert L k v ns sid T rs g) ''Quote'' = count_nodes g ''Quote''"
    using assms(4) by (simp add: count_nodes_merge_node)
  let ?new = "map (\<lambda>r. (rel_src r, rel_type r, rel_dst r))
       (missing_rels (session_nodes g sid) T
          (match_nodes (merge_node L k (PStr v) g) L k (PStr v)) g)"
  have "filter (\<lambda>l. fst (snd l) = ''QUOTED'') ?new = []"
    using assms(5) by (auto simp: filter_empty_conv dest: missing_rels_typed)
  then show "count_rels (upsert L k v ns sid T rs g) ''QUOTED'' = count_rels g ''QUOTED''"
    by (simp add: count_rels_links upsert_links [OF assms(1-3)])
qed

lemma link_dimension_quotes_kept:
  assumes "quotes_kept g h"
  shows "quotes_kept g (link_dimension theme dimension h)"
proof -
  have n: "count_nodes (link_dimension theme dimension h) ''Quote'' = count_nodes h ''Quote''"
    by (simp add: count_nodes_shape link_dimension_shape)
       (simp add: count_nodes_shape [symmetric] count_nodes_merge_node)
  from link_dimension_rels [of theme dimension h] obtain new where
    "rels (link_dimension theme dimension h) = rels h @ new"
    "list_all (\<lambda>r. rel_type r = ''RELATES_TO'' \<and> rel_props r = []) new"
    by blast
  then have "count_rels (link_dimension theme dimension h) ''QUOTED'' = count_rels h ''QUOTED''"
    by (intro count_rels_typed [where new = new]) (auto simp: list_all_iff)
  with n assms show ?thesis
    by (simp add: quotes_kept_def)
qed

lemma sync_theme_with_dimensions_quotes_kept:
  assumes "quotes_kept g h"
  shows "quotes_kept g (sync_theme_with_dimensions sid theme h)"
proof -
  have "quotes_kept g (sync_theme sid theme h)"
    using assms unfolding quotes_kept_def sync_theme_def
    by (simp add: upsert_quotes_kept [OF theme_sets name_key])
  then show ?thesis
    unfolding sync_theme_with_dimensions_def
    by (rule fold_invariant) (rule link_dimension_quotes_kept)
qed

lemma sync_tool_quotes_kept:
  "quotes_kept g h \<Longrightarrow> quotes_kept g (sync_tool sid tool h)"
  unfolding quotes_kept_def sync_tool_def
  by (simp add: upsert_quotes_kept [OF tool_sets name_key])

lemma sync_pain_point_quotes_kept:
  "quotes_kept g h \<Longrightarrow> quotes_kept g (sync_pain_point sid pp h)"
  unfolding quotes_kept_def sync_pain_point_def
  by (simp add: upsert_quotes_kept [OF pain_point_sets description_key])

lemma sync_goal_quotes_kept:
  "quotes_kept g h \<Longrightarrow> quotes_kept g (sync_goal sid goal h)"
  unfolding quotes_kept_def sync_goal_def
  by (simp add: upsert_quotes_kept [OF goal_sets description_key])

lemma sync_entities_quotes_kept: "quotes_kept g (sync_entities e g)"
proof -
  let ?sid = "session_id e"
  let ?P = "quotes_kept g"
  have 1: "?P (fold (sync_theme_with_dimensions ?sid) (themes e) g)"
    by (rule fold_invariant [where P = ?P, OF quotes_kept_refl])
       (rule sync_theme_with_dimensions_quotes_kept)
  have 2: "?P (fold (sync_tool ?sid) (tools e) (fold (sync_theme_with_dimensions ?sid) (themes e) g))"
    by (rule fold_invariant [where P = ?P, OF 1]) (rule sync_tool_quotes_kept)
  have 3: "?P (fold (sync_pain_point ?sid) (pain_points e)
            (fold (sync_tool ?sid) (tools e) (fold (sync_theme_with_dimensions ?sid) (themes e) g)))"
    by (rule fold_invariant [where P = ?P, OF 2]) (rule sync_pain_point_quotes_kept)
  show ?thesis
    unfolding sync_entities_def
    by (rule fold_invariant [where P = ?P, OF 3]) (rule sync_goal_quotes_kept)
qed

subsection \<open>The quote statements of a run\<close>

lemma fold_sync_quote_session_nodes:
  "session_nodes (fold (sync_quote sid) qs g) sid' = session_nodes g sid'"
  by (induction qs arbitrary: g) (simp_all add: session_nodes_sync_quote)

lemma fold_sync_quote_shape:
  "shape (fold (sync_quote sid) qs g)
     = shape g @ replicate (length qs * length (session_nodes g sid)) quote_view"
proof (induction qs arbitrary: g)
  case Nil
  then show ?case by simp
next
  case (Cons q qs)
  show ?case
    by (simp add: Cons.IH sync_quote_shape session_nodes_sync_quote replicate_add [symmetric]
        del: replicate_add)
qed

lemma fold_sync_quote_links:
  "\<exists>new. links (fold (sync_quote sid) qs g) = links g @ new
         \<and> length new = length qs * length (session_nodes g sid)
         \<and> list_all (\<lambda>l. fst (snd l) = ''QUOTED'') new"
proof (induction qs arbitrary: g)
  case Nil
  then show ?case by simp
next
  case (Cons q qs)
  from sync_quote_links [of sid q g] obtain n1 where
    1: "links (sync_quote sid q g) = links g @ n1" "length n1 = length (session_nodes g sid)"
       "list_all (\<lambda>l. fst (snd l) = ''QUOTED'') n1"
    by blast
  from Cons.IH [of "sync_quote sid q g"] obtain n2 where
    2: "links (fold (sync_quote sid) qs (sync_quote sid q g)) = links (sync_quote sid q g) @ n2"
       "length n2 = length qs * length (session_nodes g sid)"
       "list_all (\<lambda>l. fst (snd l) = ''QUOTED'') n2"
    by (auto simp: session_nodes_sync_quote)
  from 1 2 have "links (fold (sync_quote sid) (q # qs) g) = links g @ (n1 @ n2)
     \<and> length (n1 @ n2) = length (q # qs) * length (session_nodes g sid)
     \<and> list_all (\<lambda>l. fst (snd l) = ''QUOTED'') (n1 @ n2)"
    by simp
  then show ?case
    by blast
qed

lemma fold_sync_quote_counts:
  "count_nodes (fold (sync_quote sid) qs g) ''Quote''
     = count_nodes g ''Quote'' + length qs * length (session_nodes g sid)"
  "count_rels (fold (sync_quote sid) qs g) ''QUOTED''
     = count_rels g ''QUOTED'' + length qs * length (session_nodes g sid)"
proof -
  show "count_nodes (fold (sync_quote sid) qs g) ''Quote''
     = count_nodes g ''Quote'' + length qs * length (session_nodes g sid)"
    by (simp add: count_nodes_shape fold_sync_quote_shape quote_view_def)
  from fold_sync_quote_links [of sid qs g] obtain new where
    n: "links (fold (sync_quote sid) qs g) = links g @ new"
       "length new = length qs * length (session_nodes g sid)"
       "list_all (\<lambda>l. fst (snd l) = ''QUOTED'') new"
    by blast
  from n(3) have "filter (\<lambda>l. fst (snd l) = ''QUOTED'') new = new"
    by (simp add: list_all_iff)
  with n show "count_rels (fold (sync_quote sid) qs g) ''QUOTED''
     = count_rels g ''QUOTED'' + length qs * length (session_nodes g sid)"
    by (simp add: count_rels_links)
qed

lemma sync_counts:
  "count_nodes (sync_extraction_to_graph e g) ''Quote''
     = count_nodes g ''Quote'' + length (quotes e) * length (session_nodes g (session_id e))"
  "count_rels (sync_extraction_to_graph e g) ''QUOTED''
     = count_rels g ''QUOTED'' + length (quotes e) * length (session_nodes g (session_id e))"
  using sync_entities_quotes_kept [of g e]
    session_nodes_grows [OF sync_entities_grows, of e g "session_id e"]
  by (simp_all add: sync_split fold_sync_quote_counts quotes_kept_def)

lemma sync_session_nodes:
  "session_nodes (sync_extraction_to_graph e g) sid = session_nodes g sid"
  by (rule session_nodes_grows) (rule sync_grows)

text \<open>
  Claim C2, as amended. When the graph holds no Session node with the id of the extraction,
  the run changes no relationship of the graph and adds none from a Session: the
  relationships of the result are those of the graph followed by \<open>RELATES_TO\<close> relationships
  (Theme to ScoringDimension) without properties. Every theme, tool, pain point and goal of
  the extraction has a node in the result, no Session node of the id appears, and no Quote
  node is created. The synchronizer is a total function of the graph: the statements that
  match no row pass silently. In the example the session \<open>s9\<close> is synced into a graph that
  holds the session \<open>s1\<close> only.
\<close>

theorem absent_session_forms_no_relationship:
  assumes "session_nodes g (session_id e) = []"
  shows "take (length (rels g)) (rels (sync_extraction_to_graph e g)) = rels g
       \<and> list_all (\<lambda>r. rel_type r = ''RELATES_TO'' \<and> rel_props r = [])
           (drop (length (rels g)) (rels (sync_extraction_to_graph e g)))
       \<and> list_all (\<lambda>x. match_nodes (sync_extraction_to_graph e g) ''Theme'' ''name''
                           (PStr (theme_name x)) \<noteq> []) (themes e)
       \<and> list_all (\<lambda>x. match_nodes (sync_extraction_to_graph e g) ''Tool'' ''name''
                           (PStr (tool_name x)) \<noteq> []) (tools e)
       \<and> list_all (\<lambda>x. match_nodes (sync_extraction_to_graph e g) ''PainPoint'' ''description''
                           (PStr (pp_description x)) \<noteq> []) (pain_points e)
       \<and> list_all (\<lambda>x. match_nodes (sync_extraction_to_graph e g) ''Goal'' ''description''
                           (PStr (goal_description x)) \<noteq> []) (goals e)
       \<and> session_nodes (sync_extraction_to_graph e g) (session_id e) = []
       \<and> count_nodes (sync_extraction_to_graph e g) ''Quote'' = count_nodes g ''Quote''
       \<and> sync_extraction_to_graph (report_extraction ''s9'') processed_graph = orphan_graph"
proof -
  from no_session_sync [OF assms]
  have a: "take (length (rels g)) (rels (sync_extraction_to_graph e g)) = rels g
       \<and> list_all (\<lambda>r. rel_type r = ''RELATES_TO'' \<and> rel_props r = [])
           (drop (length (rels g)) (rels (sync_extraction_to_graph e g)))"
    and s: "session_nodes (sync_extraction_to_graph e g) (session_id e) = []"
    by (simp_all add: extends_take_drop)
  note b = covered_present [OF sync_covers [of e g]]
  have c: "count_nodes (sync_extraction_to_graph e g) ''Quote'' = count_nodes g ''Quote''"
    by (simp add: sync_counts assms)
  have d: "sync_extraction_to_graph (report_extraction ''s9'') processed_graph = orphan_graph"
    by code_simp
  from a b s c d show ?thesis
    by simp
qed

text \<open>
  Witness for C2: the graph holds the session \<open>s1\<close> only, the extraction is for \<open>s9\<close>; the
  run adds one \<open>RELATES_TO\<close> relationship and the entity nodes.
\<close>

theorem absent_session_forms_no_relationship_witness:
  "session_nodes processed_graph ''s9'' = []
   \<and> rels (sync_extraction_to_graph (report_extraction ''s9'') processed_graph)
       = rels processed_graph
         @ [\<lparr>rel_src = 1, rel_type = ''RELATES_TO'', rel_dst = 2, rel_props = []\<rparr>]
   \<and> match_nodes (sync_extraction_to_graph (report_extraction ''s9'') processed_graph)
       ''Tool'' ''name'' (PStr ''ChatGPT'') = [3]
   \<and> session_nodes (sync_extraction_to_graph (report_extraction ''s9'') processed_graph) ''s9'' = []"
proof -
  have h: "session_nodes processed_graph (session_id (report_extraction ''s9'')) = []"
    by code_simp
  have o: "rels orphan_graph = rels processed_graph
         @ [\<lparr>rel_src = 1, rel_type = ''RELATES_TO'', rel_dst = 2, rel_props = []\<rparr>]"
    "match_nodes orphan_graph ''Tool'' ''name'' (PStr ''ChatGPT'') = [3]"
    "session_nodes processed_graph ''s9'' = []"
    "session_id (report_extraction ''s9'') = ''s9''"
    by code_simp+
  have e: "sync_extraction_to_graph (report_extraction ''s9'') processed_graph = orphan_graph"
    by code_simp
  note t = absent_session_forms_no_relationship [OF h, unfolded e o(4)]
  show ?thesis
    unfolding e using t o(1-3) by simp
qed

text \<open>
  Counterexample for C2 as stated: the node merged for the theme is not without a
  relationship to any Session. The graph holds the session \<open>s1\<close> with the theme; the
  extraction of \<open>s9\<close>, which has no node, names the same theme; the Theme node it merges is
  the one that \<open>s1\<close> is linked to, and the link is still there.
\<close>

theorem merged_node_keeps_session_counterexample:
  "session_nodes processed_graph ''s9'' = []
   \<and> sync_extraction_to_graph (report_extraction ''s9'') processed_graph = orphan_graph
   \<and> match_nodes orphan_graph ''Theme'' ''name'' (PStr ''ChatGPT adoption'') = [1]
   \<and> match_nodes orphan_graph ''Session'' ''id'' (PStr ''s1'') = [0]
   \<and> rels orphan_graph ! 0 = \<lparr>rel_src = 0, rel_type = ''SURFACED'', rel_dst = 1, rel_props = []\<rparr>"
  by code_simp

subsection \<open>The values a statement writes\<close>







section \<open>The pipeline orchestrator\<close>

lemma process_sessions_Cons_cases:
  obtains (raised) e where "process_sessions rt ev (row # rows) st = st\<lparr>outcome := Uncaught e\<rparr>"
  | (extract_raised) n e where
      "process_sessions rt ev (row # rows) st =
         st\<lparr>llm_calls := llm_calls st + n, outcome := Uncaught e\<rparr>"
  | (continued) st1 where
      "process_sessions rt ev (row # rows) st = process_sessions rt ev rows st1"
      "outcome st1 = outcome st"
proof (cases "py_get (session_data (session_dict row)) ''participant'' (JObj [])")
  case (Inl e)
  then show ?thesis
    by (intro raised [of e]) simp
next
  case p: (Inr participant)
  show ?thesis
  proof (cases "py_get participant ''name'' (JStr ''Unknown'')")
    case (Inl e)
    with p show ?thesis
      by (intro raised [of e]) simp
  next
    case n: (Inr name)
    obtain r k where r: "extract_intelligence rt ev row = (r, k)"
      by (cases "extract_intelligence rt ev row")
    show ?thesis
    proof (cases r)
      case (Inl e)
      with p n r show ?thesis
        by (intro extract_raised [where n = k and e = e]) (simp add: Let_def)
    next
      case (Inr x)
      show ?thesis
      proof (cases x)
        case None
        with p n r Inr show ?thesis
          by (intro continued [of "st\<lparr>llm_calls := llm_calls st + k\<rparr>"]) (simp_all add: Let_def)
      next
        case (Some extraction)
        with p n r Inr show ?thesis
          by (intro continued [of "st\<lparr>llm_calls := llm_calls st + k,
                 graph_of := sync_extraction_to_graph extraction (graph_of st),
                 success_count := Suc (success_count st)\<rparr>"]) (simp_all add: Let_def)
      qed
    qed
  qed
qed

lemma outcome_process_sessions:
  "outcome (process_sessions rt ev rows st) = outcome st
   \<or> (\<exists>e. outcome (process_sessions rt ev rows st) = Uncaught e)"
proof (induction rows arbitrary: st)
  case Nil
  then show ?case by simp
next
  case (Cons row rows)
  show ?case
  proof (cases rule: process_sessions_Cons_cases [of rt ev row rows st])
    case (raised e)
    then show ?thesis by simp
  next
    case (extract_raised n e)
    then show ?thesis by simp
  next
    case (continued st1)
    with Cons.IH [of st1] show ?thesis by auto
  qed
qed

lemma process_single_session:
  assumes "py_get (session_data (session_dict row)) ''participant'' (JObj []) = Inr (JObj p)"
  shows "process_sessions rt ev [row] (start_run g) =
     (case fst (extract_intelligence rt ev row) of
        Inl e \<Rightarrow> \<lparr>outcome = Uncaught e, graph_of = g,
                  llm_calls = snd (extract_intelligence rt ev row), success_count = 0\<rparr>
      | Inr None \<Rightarrow> \<lparr>outcome = Returned, graph_of = g,
                     llm_calls = snd (extract_intelligence rt ev row), success_count = 0\<rparr>
      | Inr (Some extraction) \<Rightarrow>
          \<lparr>outcome = Returned, graph_of = sync_extraction_to_graph extraction g,
           llm_calls = snd (extract_intelligence rt ev row), success_count = 1\<rparr>)"
  using assms
  by (simp add: start_run_def Let_def split: sum.splits option.splits)

text \<open>
  Claim C8, as amended. With \<open>--session x\<close>, \<open>x\<close> not empty, the sessions fetched are the rows
  whose id is \<open>x\<close>, whatever their status; the set of processed sessions is not consulted, so
  the loop runs over exactly these rows whatever the graph holds and whatever \<open>--reprocess\<close>
  says. When the store is reachable and the row of \<open>x\<close> has a participant entry that is a
  dictionary (or none), the run is the extraction of that row followed, when there is a
  result, by its synchronisation into the graph. In the example a session in progress that
  the graph already holds ends with its tool in the graph.
\<close>

theorem session_flag_bypasses_filters:
  assumes "parse_args w (argv w) = Parsed a" and "arg_session a = Some x" and "x \<noteq> []"
  shows "fetch_analyzed_sessions tbl (arg_session a) = filter (\<lambda>row. row_id row = x) tbl
    \<and> sessions_to_process a tbl g = filter (\<lambda>row. row_id row = x) tbl
    \<and> (neo4j_reachable w \<longrightarrow>
          main rt ev w =
            process_sessions rt ev (filter (\<lambda>row. row_id row = x) (table w)) (start_run (graph0 w)))
    \<and> (\<forall>row p.
          neo4j_reachable w \<and> filter (\<lambda>row. row_id row = x) (table w) = [row]
          \<and> py_get (session_data (session_dict row)) ''participant'' (JObj []) = Inr (JObj p) \<longrightarrow>
          main rt ev w =
            (case fst (extract_intelligence rt ev row) of
               Inl e \<Rightarrow> \<lparr>outcome = Uncaught e, graph_of = graph0 w,
                         llm_calls = snd (extract_intelligence rt ev row), success_count = 0\<rparr>
             | Inr None \<Rightarrow> \<lparr>outcome = Returned, graph_of = graph0 w,
                            llm_calls = snd (extract_intelligence rt ev row), success_count = 0\<rparr>
             | Inr (Some extraction) \<Rightarrow>
                 \<lparr>outcome = Returned,
                  graph_of = sync_extraction_to_graph extraction (graph0 w),
                  llm_calls = snd (extract_intelligence rt ev row), success_count = 1\<rparr>))
    \<and> main tools_runtime tools_env draft_world =
          \<lparr>outcome = Returned, graph_of = tool_graph, llm_calls = 1, success_count = 1\<rparr>"
proof -
  have gv: "given (arg_session a)"
    using assms by (simp add: given_def)
  have f: "\<And>t. fetch_analyzed_sessions t (arg_session a) = filter (\<lambda>row. row_id row = x) t"
    unfolding fetch_analyzed_sessions_def using gv assms(2) by simp
  have s: "\<And>t h. sessions_to_process a t h = filter (\<lambda>row. row_id row = x) t"
    unfolding sessions_to_process_def using gv f by simp
  have m: "neo4j_reachable w \<Longrightarrow>
          main rt ev w =
            process_sessions rt ev (filter (\<lambda>row. row_id row = x) (table w)) (start_run (graph0 w))"
    using assms(1) by (simp add: main_def f s)
  have p: "\<forall>row p.
          neo4j_reachable w \<and> filter (\<lambda>row. row_id row = x) (table w) = [row]
          \<and> py_get (session_data (session_dict row)) ''participant'' (JObj []) = Inr (JObj p) \<longrightarrow>
          main rt ev w =
            (case fst (extract_intelligence rt ev row) of
               Inl e \<Rightarrow> \<lparr>outcome = Uncaught e, graph_of = graph0 w,
                         llm_calls = snd (extract_intelligence rt ev row), success_count = 0\<rparr>
             | Inr None \<Rightarrow> \<lparr>outcome = Returned, graph_of = graph0 w,
                            llm_calls = snd (extract_intelligence rt ev row), success_count = 0\<rparr>
             | Inr (Some extraction) \<Rightarrow>
                 \<lparr>outcome = Returned,
                  graph_of = sync_extraction_to_graph extraction (graph0 w),
                  llm_calls = snd (extract_intelligence rt ev row), success_count = 1\<rparr>)"
  proof (intro allI impI)
    fix row p
    assume h: "neo4j_reachable w \<and> filter (\<lambda>row. row_id row = x) (table w) = [row]
          \<and> py_get (session_data (session_dict row)) ''participant'' (JObj []) = Inr (JObj p)"
    then have "main rt ev w = process_sessions rt ev [row] (start_run (graph0 w))"
      using m by simp
    also note process_single_session [of row p rt ev "graph0 w"]
    finally show "main rt ev w =
            (case fst (extract_intelligence rt ev row) of
               Inl e \<Rightarrow> \<lparr>outcome = Uncaught e, graph_of = graph0 w,
                         llm_calls = snd (extract_intelligence rt ev row), success_count = 0\<rparr>
             | Inr None \<Rightarrow> \<lparr>outcome = Returned, graph_of = graph0 w,
                            llm_calls = snd (extract_intelligence rt ev row), success_count = 0\<rparr>
             | Inr (Some extraction) \<Rightarrow>
                 \<lparr>outcome = Returned,
                  graph_of = sync_extraction_to_graph extraction (graph0 w),
                  llm_calls = snd (extract_intelligence rt ev row), success_count = 1\<rparr>)"
      using h by simp
  qed
  have c: "main tools_runtime tools_env draft_world =
          \<lparr>outcome = Returned, graph_of = tool_graph, llm_calls = 1, success_count = 1\<rparr>"
    by code_simp
  from f s m p c show ?thesis
    by blast
qed

text \<open>
  Witness for C8: a session in progress that already has a \<open>SURFACED\<close> relationship is left
  out by the default run and extracted and synced under \<open>--session s1\<close>.
\<close>

theorem session_flag_bypasses_filters_witness:
  "sessions_to_process \<lparr>arg_reprocess = False, arg_session = Some ''s1''\<rparr> [draft_row]
     processed_graph = [draft_row]
   \<and> sessions_to_process \<lparr>arg_reprocess = False, arg_session = None\<rparr> [draft_row]
       processed_graph = []
   \<and> dict_get (session_dict draft_row) ''status'' JNull = JStr ''in_progress''
   \<and> ''s1'' \<in> set (get_processed_session_ids processed_graph)
   \<and> graph_of (main tools_runtime tools_env draft_world) = tool_graph"
proof -
  let ?a = "\<lparr>arg_reprocess = False, arg_session = Some ''s1''\<rparr>"
  have 0: "parse_args draft_world (argv draft_world) = Parsed ?a"
    by (simp add: draft_world_def example_world_def)
  have 1: "arg_session ?a = Some ''s1''" and 2: "''s1'' \<noteq> []"
    by simp_all
  have 3: "filter (\<lambda>row. row_id row = ''s1'') [draft_row] = [draft_row]"
    by (simp add: draft_row_def tools_row_def)
  note t = session_flag_bypasses_filters [OF 0 1 2, where tbl = "[draft_row]" and g = processed_graph
      and rt = tools_runtime and ev = tools_env]
  from t 3 have a: "sessions_to_process ?a [draft_row] processed_graph = [draft_row]"
    by simp
  from t have b: "graph_of (main tools_runtime tools_env draft_world) = tool_graph"
    by simp
  have c: "sessions_to_process \<lparr>arg_reprocess = False, arg_session = None\<rparr> [draft_row]
       processed_graph = []"
    by code_simp
  have d: "dict_get (session_dict draft_row) ''status'' JNull = JStr ''in_progress''"
    by code_simp
  have e: "''s1'' \<in> set (get_processed_session_ids processed_graph)"
    by code_simp
  from a b c d e show ?thesis
    by simp
qed

text \<open>
  Counterexample for C8 as stated: under \<open>--session ""\<close> the flag counts as absent, the
  status filter and the exclusion of processed sessions both apply; and a session whose
  participant entry is \<open>null\<close> is not processed under \<open>--session s1\<close>, the run ends with
  \<open>AttributeError\<close> before the extraction.
\<close>

theorem session_flag_counterexample:
  "parse_args (example_world [''--session'', ''''] [tools_row, draft_row] processed_graph)
     [''--session'', ''''] = Parsed \<lparr>arg_reprocess = False, arg_session = Some ''''\<rparr>
   \<and> fetch_analyzed_sessions [tools_row, draft_row] (Some '''') = [tools_row]
   \<and> sessions_to_process \<lparr>arg_reprocess = False, arg_session = Some ''''\<rparr> [tools_row, draft_row]
       processed_graph = []
   \<and> main example_runtime example_env
       (example_world [''--session'', ''s1''] [null_participant_row] empty_graph) =
       \<lparr>outcome = Uncaught AttributeError, graph_of = empty_graph, llm_calls = 0, success_count = 0\<rparr>"
  by code_simp

text \<open>
  Claim C9, as amended. A command line the parser rejects ends the run with exit status 2
  and \<open>--help\<close> with exit status 0, before the connectivity check. Otherwise an unreachable
  graph store at the startup check ends the run with \<open>sys.exit(1)\<close> before anything else
  happens; with the store reachable there is no further \<open>sys.exit\<close>: the run returns at once
  when no session is fetched or when every fetched session is filtered out, and whenever no
  exception escapes \<open>main\<close> its exit status is 0.
\<close>

theorem exit_status_of_main:
  "(parse_args w (argv w) = UsageError \<longrightarrow>
       main rt ev w = (start_run (graph0 w))\<lparr>outcome := SysExit 2\<rparr>
       \<and> exit_status (outcome (main rt ev w)) = 2)
   \<and> (parse_args w (argv w) = HelpShown \<longrightarrow>
       main rt ev w = (start_run (graph0 w))\<lparr>outcome := SysExit 0\<rparr>
       \<and> exit_status (outcome (main rt ev w)) = 0)
   \<and> (parse_args w (argv w) = Parsed a \<and> \<not> neo4j_reachable w \<longrightarrow>
       main rt ev w = (start_run (graph0 w))\<lparr>outcome := SysExit 1\<rparr>
       \<and> exit_status (outcome (main rt ev w)) = 1)
   \<and> (parse_args w (argv w) = Parsed a \<and> neo4j_reachable w
        \<and> fetch_analyzed_sessions (table w) (arg_session a) = [] \<longrightarrow>
        main rt ev w = start_run (graph0 w) \<and> exit_status (outcome (main rt ev w)) = 0)
   \<and> (parse_args w (argv w) = Parsed a \<and> neo4j_reachable w
        \<and> sessions_to_process a (table w) (graph0 w) = [] \<longrightarrow>
        main rt ev w = start_run (graph0 w) \<and> exit_status (outcome (main rt ev w)) = 0)
   \<and> (parse_args w (argv w) = Parsed a \<and> neo4j_reachable w \<longrightarrow>
        outcome (main rt ev w) = Returned \<or> (\<exists>e. outcome (main rt ev w) = Uncaught e))
   \<and> (parse_args w (argv w) = Parsed a \<and> neo4j_reachable w
        \<and> (\<forall>e. outcome (main rt ev w) \<noteq> Uncaught e) \<longrightarrow>
        exit_status (outcome (main rt ev w)) = 0)
   \<and> main tools_runtime tools_env draft_world =
        \<lparr>outcome = Returned, graph_of = tool_graph, llm_calls = 1, success_count = 1\<rparr>"
proof -
  have o: "parse_args w (argv w) = Parsed a \<Longrightarrow> neo4j_reachable w \<Longrightarrow>
        outcome (main rt ev w) = Returned \<or> (\<exists>e. outcome (main rt ev w) = Uncaught e)"
    using outcome_process_sessions [of rt ev "sessions_to_process a (table w) (graph0 w)"
        "start_run (graph0 w)"]
    by (auto simp: main_def start_run_def)
  then have z: "parse_args w (argv w) = Parsed a \<Longrightarrow> neo4j_reachable w \<Longrightarrow>
        (\<forall>e. outcome (main rt ev w) \<noteq> Uncaught e) \<Longrightarrow>
        exit_status (outcome (main rt ev w)) = 0"
    by (auto simp: exit_status_def)
  have c: "main tools_runtime tools_env draft_world =
          \<lparr>outcome = Returned, graph_of = tool_graph, llm_calls = 1, success_count = 1\<rparr>"
    by code_simp
  show ?thesis
    using o z c by (auto simp: main_def start_run_def exit_status_def)
qed

text \<open>
  Witness for C9: a rejected command line, \<open>--help\<close>, an unreachable store, an empty table,
  an analyzed session filtered out as already processed, and a run that syncs a session.
\<close>

theorem exit_status_of_main_witness:
  "exit_status (outcome (main example_runtime example_env
       (example_world [''--session''] [tools_row] empty_graph))) = 2
   \<and> exit_status (outcome (main example_runtime example_env
       (example_world [''--help''] [tools_row] empty_graph))) = 0
   \<and> exit_status (outcome (main example_runtime example_env
       (crash_world\<lparr>neo4j_reachable := False\<rparr>))) = 1
   \<and> exit_status (outcome (main example_runtime example_env
       (example_world [] [] empty_graph))) = 0
   \<and> fetch_analyzed_sessions (table done_world) None = [tools_row]
   \<and> sessions_to_process \<lparr>arg_reprocess = False, arg_session = None\<rparr> (table done_world)
       (graph0 done_world) = []
   \<and> exit_status (outcome (main example_runtime example_env done_world)) = 0
   \<and> exit_status (outcome (main tools_runtime tools_env draft_world)) = 0"
proof -
  let ?a = "\<lparr>arg_reprocess = False, arg_session = None\<rparr>"
  let ?rejected = "example_world [''--session''] [tools_row] empty_graph"
  let ?helped = "example_world [''--help''] [tools_row] empty_graph"
  let ?unreachable = "crash_world\<lparr>neo4j_reachable := False\<rparr>"
  let ?nothing = "example_world [] [] empty_graph"
  have 1: "parse_args ?rejected (argv ?rejected) = UsageError"
    by (simp add: example_world_def)
  have 2: "parse_args ?helped (argv ?helped) = HelpShown"
    by (simp add: example_world_def)
  have 3: "parse_args ?unreachable (argv ?unreachable) = Parsed ?a \<and> \<not> neo4j_reachable ?unreachable"
    by (simp add: crash_world_def example_world_def)
  have 4: "parse_args ?nothing (argv ?nothing) = Parsed ?a \<and> neo4j_reachable ?nothing
           \<and> fetch_analyzed_sessions (table ?nothing) (arg_session ?a) = []"
    by (simp add: example_world_def fetch_analyzed_sessions_def)
  have 5: "fetch_analyzed_sessions (table done_world) None = [tools_row]"
    by code_simp
  have 6: "sessions_to_process ?a (table done_world) (graph0 done_world) = []"
    by code_simp
  have 7: "parse_args done_world (argv done_world) = Parsed ?a \<and> neo4j_reachable done_world"
    by (simp add: done_world_def example_world_def)
  have 8: "parse_args draft_world (argv draft_world) =
             Parsed \<lparr>arg_reprocess = False, arg_session = Some ''s1''\<rparr>
           \<and> neo4j_reachable draft_world"
    by (simp add: draft_world_def example_world_def)
  from 1 exit_status_of_main [where w = ?rejected and rt = example_runtime and ev = example_env]
  have a: "exit_status (outcome (main example_runtime example_env ?rejected)) = 2"
    by blast
  from 2 exit_status_of_main [where w = ?helped and rt = example_runtime and ev = example_env]
  have b: "exit_status (outcome (main example_runtime example_env ?helped)) = 0"
    by blast
  from 3 exit_status_of_main [where w = ?unreachable and a = ?a and rt = example_runtime and ev = example_env]
  have c: "exit_status (outcome (main example_runtime example_env ?unreachable)) = 1"
    by blast
  from 4 exit_status_of_main [where w = ?nothing and a = ?a and rt = example_runtime and ev = example_env]
  have d: "exit_status (outcome (main example_runtime example_env ?nothing)) = 0"
    by blast
  from 6 7 exit_status_of_main [where w = done_world and a = ?a and rt = example_runtime and ev = example_env]
  have e: "exit_status (outcome (main example_runtime example_env done_world)) = 0"
    by blast
  from exit_status_of_main [where w = draft_world and rt = tools_runtime and ev = tools_env]
  have "main tools_runtime tools_env draft_world =
          \<lparr>outcome = Returned, graph_of = tool_graph, llm_calls = 1, success_count = 1\<rparr>"
    by blast
  then have f: "exit_status (outcome (main tools_runtime tools_env draft_world)) = 0"
    by (simp add: exit_status_def)
  from a b c d 5 6 e f show ?thesis
    by simp
qed

text \<open>
  Counterexample for C9 as stated: the command line parses, the store is reachable, one
  analyzed session carries \<open>"aiFollowUps": null\<close>; the \<open>TypeError\<close> raised while its transcript
  is assembled is caught nowhere, and the process ends with exit status 1.
\<close>

theorem exit_status_counterexample:
  "parse_args crash_world (argv crash_world) = Parsed \<lparr>arg_reprocess = False, arg_session = None\<rparr>
   \<and> neo4j_reachable crash_world
   \<and> outcome (main example_runtime example_env crash_world) = Uncaught TypeError
   \<and> exit_status (outcome (main example_runtime example_env crash_world)) = 1"
  by code_simp


end
